theory Spec2Isabelle
  imports Main "HOL-Library.AList"
begin

section \<open>The signalling relay of \<^verbatim>\<open>src/server.js\<close>\<close>

text \<open>
  The relay keeps two module-level objects, \<^verbatim>\<open>users\<close> (socket id to session) and
  \<^verbatim>\<open>rooms\<close> (room id to a \<^verbatim>\<open>Set\<close> of user ids), and registers one closure per
  event on every admitted socket. Each closure is embedded as a function from the state
  before the event to the state after it. A JavaScript object is an association list in
  insertion order (\<^verbatim>\<open>Object.keys\<close> and \<^verbatim>\<open>Object.values\<close> enumerate string keys in
  that order): \<^verbatim>\<open>o[k] = v\<close> is \<open>AList.update\<close>, which replaces in place or appends,
  and \<^verbatim>\<open>delete o[k]\<close> is \<open>AList.delete\<close>.
\<close>

subsection \<open>Values\<close>

type_synonym sid = string
type_synonym uid = string
type_synonym room = string
type_synonym time = nat

text \<open>Opaque payload parts (content, offer, answer, candidate, flags) and emitted objects.\<close>

datatype jsval =
    Undefined
  | Null
  | Bool bool
  | Num int
  | Str string
  | Date time
  | Arr "jsval list"
  | Obj "(string \<times> jsval) list"

text \<open>
  An optional identifier in a payload (\<^verbatim>\<open>receiverId\<close>, \<^verbatim>\<open>to\<close>, \<^verbatim>\<open>roomId\<close>,
  \<^verbatim>\<open>language\<close>, \<^verbatim>\<open>username\<close>) is a \<open>string option\<close>: \<open>None\<close> is an absent
  field (\<^verbatim>\<open>undefined\<close>). The guards \<^verbatim>\<open>if (x)\<close> and \<^verbatim>\<open>x || y\<close> test JavaScript
  truthiness, so the empty string counts as absent there.
\<close>

fun truthy :: "string option \<Rightarrow> bool" where
  "truthy None = False"
| "truthy (Some s) = (s \<noteq> [])"

fun the_str :: "string option \<Rightarrow> string" where
  "the_str None = []"
| "the_str (Some s) = s"

fun opt :: "string option \<Rightarrow> jsval" where
  "opt None = Undefined"
| "opt (Some s) = Str s"

text \<open>\<^verbatim>\<open>a || d\<close> for an optional string \<open>a\<close> and a string \<open>d\<close>.\<close>

fun js_or :: "string option \<Rightarrow> string \<Rightarrow> string" where
  "js_or None d = d"
| "js_or (Some s) d = (if s = [] then d else s)"

text \<open>A \<^verbatim>\<open>Set\<close>: \<^verbatim>\<open>add\<close> keeps one copy, \<^verbatim>\<open>delete\<close> is \<open>removeAll\<close>.\<close>

definition set_add :: "'a \<Rightarrow> 'a list \<Rightarrow> 'a list" where
  "set_add x xs = (if x \<in> set xs then xs else xs @ [x])"

text \<open>
  \<^verbatim>\<open>rooms\<close> is a plain object literal and its keys are chosen by clients, so a read
  \<^verbatim>\<open>rooms[roomId]\<close> of a key the object does not own falls through to
  \<^verbatim>\<open>Object.prototype\<close>. The inherited values are functions (or the prototype itself):
  truthy, and without \<^verbatim>\<open>add\<close> or \<^verbatim>\<open>delete\<close>.
\<close>

definition object_prototype_keys :: "string list" where
  "object_prototype_keys =
     [''constructor'', ''__defineGetter__'', ''__defineSetter__'', ''hasOwnProperty'',
      ''__lookupGetter__'', ''__lookupSetter__'', ''isPrototypeOf'', ''propertyIsEnumerable'',
      ''toString'', ''valueOf'', ''__proto__'', ''toLocaleString'']"

datatype 'a property = Own 'a | Inherited | Missing

definition getprop :: "(string \<times> 'a) list \<Rightarrow> string \<Rightarrow> 'a property" where
  "getprop obj k =
     (case map_of obj k of
        Some v \<Rightarrow> Own v
      | None \<Rightarrow> if k \<in> set object_prototype_keys then Inherited else Missing)"

datatype error = TypeError

subsection \<open>Sockets, sessions and the state\<close>

text \<open>
  What a handler closure reads of its socket: \<^verbatim>\<open>socket.id\<close> and the decoded
  credential \<^verbatim>\<open>socket.user\<close> (\<^verbatim>\<open>userId\<close>, \<^verbatim>\<open>username\<close>, \<^verbatim>\<open>user?.username\<close>).
\<close>

record socket =
  sock_id :: sid
  user_userId :: uid
  user_username :: "string option"
  user_user_username :: "string option"

datatype status = Online | Offline

record session =
  socketId :: sid
  userId :: uid
  username :: string
  status :: status
  lastActive :: time
  preferredLanguage :: string

text \<open>
  The four ways the handlers address an emit: \<^verbatim>\<open>io.to(r)\<close>, \<^verbatim>\<open>socket.to(r)\<close>,
  \<^verbatim>\<open>socket.emit\<close> and \<^verbatim>\<open>socket.broadcast.emit\<close>.
\<close>

datatype target =
    ToRoom room
  | ToRoomExcept sid room
  | ToSocket sid
  | Broadcast sid

type_synonym emission = "target \<times> string \<times> jsval"

text \<open>
  Beside \<^verbatim>\<open>users\<close> and \<^verbatim>\<open>rooms\<close> the state holds what the closures reach through
  \<^verbatim>\<open>io\<close>: the open sockets (\<^verbatim>\<open>io.sockets.sockets\<close>), the transport's room membership,
  the callbacks pending from \<^verbatim>\<open>setTimeout\<close> (socket id and due time) and the emitted
  events in order.
\<close>

record state =
  users :: "(sid \<times> session) list"
  rooms :: "(room \<times> uid list) list"
  sockets :: "sid list"
  joined :: "(sid \<times> room) list"
  timers :: "(sid \<times> time) list"
  outbox :: "emission list"

definition initial :: state where
  "initial = \<lparr>users = [], rooms = [], sockets = [], joined = [], timers = [], outbox = []\<rparr>"

definition emit :: "target \<Rightarrow> string \<Rightarrow> jsval \<Rightarrow> state \<Rightarrow> state" where
  "emit tg ev payload st = st\<lparr>outbox := outbox st @ [(tg, ev, payload)]\<rparr>"

subsection \<open>The transport\<close>

text \<open>
  Modelled from the spec: the transport is the socket.io library, which is not part of the
  repository. The spec describes it as "addressed unicast (to one channel), room broadcast
  (to all channels currently in a named group, optionally excluding the sender), and global
  broadcast", delivering "to currently-open channels only". A socket is a member of the
  group named by its own id from the moment it opens, and leaves every group when it closes,
  before its \<^verbatim>\<open>disconnect\<close> listener runs.
\<close>

definition socket_join :: "sid \<Rightarrow> room \<Rightarrow> state \<Rightarrow> state" where
  "socket_join x r st = st\<lparr>joined := set_add (x, r) (joined st)\<rparr>"

definition socket_leave :: "sid \<Rightarrow> room \<Rightarrow> state \<Rightarrow> state" where
  "socket_leave x r st = st\<lparr>joined := removeAll (x, r) (joined st)\<rparr>"

definition transport_open :: "sid \<Rightarrow> state \<Rightarrow> state" where
  "transport_open x st = socket_join x x (st\<lparr>sockets := set_add x (sockets st)\<rparr>)"

definition transport_close :: "sid \<Rightarrow> state \<Rightarrow> state" where
  "transport_close x st =
     st\<lparr>sockets := removeAll x (sockets st), joined := filter (\<lambda>p. fst p \<noteq> x) (joined st)\<rparr>"

text \<open>
  The open sockets of a group, in the order in which they joined it (the group is a
  \<^verbatim>\<open>Set\<close> of socket ids).
\<close>

definition allSockets :: "state \<Rightarrow> room \<Rightarrow> sid list" where
  "allSockets st r =
     filter (\<lambda>x. x \<in> set (sockets st)) (map fst (filter (\<lambda>p. snd p = r) (joined st)))"

fun recipients :: "state \<Rightarrow> target \<Rightarrow> sid list" where
  "recipients st (ToRoom r) = allSockets st r"
| "recipients st (ToRoomExcept x r) = filter (\<lambda>y. y \<noteq> x) (allSockets st r)"
| "recipients st (ToSocket x) = filter (\<lambda>y. y = x) (sockets st)"
| "recipients st (Broadcast x) = filter (\<lambda>y. y \<noteq> x) (sockets st)"

text \<open>How many of the emissions \<open>es\<close> named \<open>ev\<close> reach the socket \<open>x\<close>.\<close>

definition received :: "state \<Rightarrow> sid \<Rightarrow> string \<Rightarrow> emission list \<Rightarrow> nat" where
  "received st x ev es =
     length (filter (\<lambda>e. fst (snd e) = ev \<and> x \<in> set (recipients st (fst e))) es)"

text \<open>
  Modelled from the spec: \<^verbatim>\<open>handleAudioTranslation\<close> and
  \<^verbatim>\<open>handleGroupCallAudioTranslation\<close> (\<^verbatim>\<open>server/socket/\<close>) are not among the source
  files. The spec has the audio pipeline attach "to an already-authenticated connection" and
  negotiate "its own message subset"; attaching is taken to leave the registry, the rooms
  and the transport as they are.
\<close>

definition handleAudioTranslation :: "socket \<Rightarrow> state \<Rightarrow> state" where
  "handleAudioTranslation sk st = st"

definition handleGroupCallAudioTranslation :: "socket \<Rightarrow> state \<Rightarrow> state" where
  "handleGroupCallAudioTranslation sk st = st"

subsection \<open>Registry lookup and admission\<close>

text \<open>\<^verbatim>\<open>Object.values(users).find(user => user.userId === userId)\<close>\<close>

definition findUserByUserId :: "(sid \<times> session) list \<Rightarrow> string option \<Rightarrow> session option" where
  "findUserByUserId us v = List.find (\<lambda>user. Some (userId user) = v) (map snd us)"

text \<open>
  The clean-up loop of the connection listener runs over the keys as they were when it
  started. Reading \<^verbatim>\<open>users[sid].userId\<close> of a key that is gone would throw.
\<close>

fun cleanup :: "uid \<Rightarrow> sid \<Rightarrow> sid list \<Rightarrow> (sid \<times> session) list \<Rightarrow> error + (sid \<times> session) list" where
  "cleanup u me [] us = Inr us"
| "cleanup u me (k # ks) us =
     (case map_of us k of
        None \<Rightarrow> Inl TypeError
      | Some s \<Rightarrow>
          if userId s = u \<and> k \<noteq> me then cleanup u me ks (AList.delete k us)
          else cleanup u me ks us)"

definition display_name :: "socket \<Rightarrow> string" where
  "display_name sk = js_or (user_username sk) (js_or (user_user_username sk) ''Unknown'')"

definition new_session :: "socket \<Rightarrow> time \<Rightarrow> session" where
  "new_session sk now =
     \<lparr>socketId = sock_id sk, userId = user_userId sk, username = display_name sk,
      status = Online, lastActive = now, preferredLanguage = ''en''\<rparr>"

definition connection :: "socket \<Rightarrow> time \<Rightarrow> state \<Rightarrow> error + state" where
  "connection sk now st =
     (case cleanup (user_userId sk) (sock_id sk) (map fst (users st)) (users st) of
        Inl e \<Rightarrow> Inl e
      | Inr us \<Rightarrow>
          Inr (handleGroupCallAudioTranslation sk (handleAudioTranslation sk
            (emit (Broadcast (sock_id sk)) ''userStatusChange''
               (Obj [(''userId'', Str (user_userId sk)), (''status'', Str ''online'')])
               (st\<lparr>users := AList.update (sock_id sk) (new_session sk now) us\<rparr>)))))"

subsection \<open>Language preference and chat rooms\<close>

text \<open>
  The payload of \<^verbatim>\<open>updateLanguagePreference\<close> as the listener receives it: \<open>None\<close>
  when the event carries no payload (\<^verbatim>\<open>data\<close> is \<^verbatim>\<open>undefined\<close> or \<^verbatim>\<open>null\<close>),
  where \<^verbatim>\<open>const { language } = data\<close> throws; otherwise the value with its
  \<^verbatim>\<open>language\<close> field, which may be absent.
\<close>

record language_data =
  d_language :: "string option"

definition updateLanguagePreference ::
  "socket \<Rightarrow> language_data option \<Rightarrow> state \<Rightarrow> error + state" where
  "updateLanguagePreference sk data st =
     (case data of
        None \<Rightarrow> Inl TypeError
      | Some d \<Rightarrow>
          Inr (if truthy (d_language d) then
                 (case map_of (users st) (sock_id sk) of
                    None \<Rightarrow> st
                  | Some s \<Rightarrow>
                      emit (ToSocket (sock_id sk)) ''languagePreferenceUpdated''
                        (Obj [(''language'', opt (d_language d)), (''success'', Bool True)])
                        (st\<lparr>users := AList.update (sock_id sk)
                              (s\<lparr>preferredLanguage := the_str (d_language d)\<rparr>) (users st)\<rparr>))
               else st))"

definition joinRoom :: "socket \<Rightarrow> room \<Rightarrow> state \<Rightarrow> error + state" where
  "joinRoom sk r st =
     (let st1 = socket_join (sock_id sk) r st;
          announce = emit (ToRoomExcept (sock_id sk) r) ''userJoinedRoom''
            (Obj [(''userId'', Str (user_userId sk)), (''username'', opt (user_username sk)),
                  (''roomId'', Str r)])
      in case getprop (rooms st1) r of
           Inherited \<Rightarrow> Inl TypeError
         | Missing \<Rightarrow>
             Inr (announce (st1\<lparr>rooms := AList.update r (set_add (user_userId sk) []) (rooms st1)\<rparr>))
         | Own ms \<Rightarrow>
             Inr (announce (st1\<lparr>rooms := AList.update r (set_add (user_userId sk) ms) (rooms st1)\<rparr>)))"

definition leaveRoom :: "socket \<Rightarrow> room \<Rightarrow> state \<Rightarrow> error + state" where
  "leaveRoom sk r st =
     (let st1 = socket_leave (sock_id sk) r st;
          announce = emit (ToRoomExcept (sock_id sk) r) ''userLeftRoom''
            (Obj [(''userId'', Str (user_userId sk)), (''username'', opt (user_username sk)),
                  (''roomId'', Str r)])
      in case getprop (rooms st1) r of
           Inherited \<Rightarrow> Inl TypeError
         | Missing \<Rightarrow> Inr (announce st1)
         | Own ms \<Rightarrow>
             (let ms' = removeAll (user_userId sk) ms
              in Inr (announce (st1\<lparr>rooms :=
                    (if ms' = [] then AList.delete r (rooms st1)
                     else AList.update r ms' (rooms st1))\<rparr>))))"

subsection \<open>Messaging and 1:1 call signalling\<close>

text \<open>
  The payload of \<^verbatim>\<open>sendMessage\<close>. The listener destructures \<^verbatim>\<open>receiverId\<close>,
  \<^verbatim>\<open>content\<close> and \<^verbatim>\<open>roomId\<close>; \<open>d_senderId\<close> and \<open>d_senderName\<close> stand for
  sender fields a client may put beside them.
\<close>

record sendMessage_data =
  d_receiverId :: "string option"
  d_content :: jsval
  d_roomId :: "string option"
  d_senderId :: jsval
  d_senderName :: jsval

definition message :: "socket \<Rightarrow> time \<Rightarrow> sendMessage_data \<Rightarrow> jsval" where
  "message sk now d =
     Obj [(''senderId'', Str (user_userId sk)),
          (''senderName'', opt (user_username sk)),
          (''content'', d_content d),
          (''timestamp'', Date now),
          (''roomId'', opt (d_roomId d))]"

definition sendMessage :: "socket \<Rightarrow> time \<Rightarrow> sendMessage_data \<Rightarrow> state \<Rightarrow> state" where
  "sendMessage sk now d st =
     (let st1 =
        (if truthy (d_receiverId d) then
           (case findUserByUserId (users st) (d_receiverId d) of
              Some receiverUser \<Rightarrow>
                emit (ToRoom (socketId receiverUser)) ''receiveMessage'' (message sk now d) st
            | None \<Rightarrow> st)
         else if truthy (d_roomId d) then
           emit (ToRoomExcept (sock_id sk) (the_str (d_roomId d))) ''receiveMessage''
             (message sk now d) st
         else st)
      in emit (ToSocket (sock_id sk)) ''messageSent''
           (Obj [(''success'', Bool True), (''message'', message sk now d)]) st1)"

definition typing :: "socket \<Rightarrow> string option \<Rightarrow> string option \<Rightarrow> jsval \<Rightarrow> state \<Rightarrow> state" where
  "typing sk receiverId roomId isTyping st =
     (let payload = Obj [(''userId'', Str (user_userId sk)),
                         (''username'', opt (user_username sk)), (''isTyping'', isTyping)]
      in if truthy receiverId then
           (case findUserByUserId (users st) receiverId of
              Some receiverUser \<Rightarrow> emit (ToRoom (socketId receiverUser)) ''userTyping'' payload st
            | None \<Rightarrow> st)
         else if truthy roomId then
           emit (ToRoomExcept (sock_id sk) (the_str roomId)) ''userTyping'' payload st
         else st)"

definition callUser ::
  "socket \<Rightarrow> string option \<Rightarrow> jsval \<Rightarrow> jsval \<Rightarrow> string option \<Rightarrow> state \<Rightarrow> state" where
  "callUser sk to offer callType roomId st =
     (if truthy roomId then
        emit (ToRoomExcept (sock_id sk) (the_str roomId)) ''incomingCall''
          (Obj [(''from'', Str (user_userId sk)), (''fromName'', opt (user_username sk)),
                (''offer'', offer), (''callType'', callType), (''roomId'', opt roomId)]) st
      else
        (case findUserByUserId (users st) to of
           Some toUser \<Rightarrow>
             if socketId toUser \<in> set (sockets st) then
               emit (ToSocket (sock_id sk)) ''incomingCallDelivered''
                 (Obj [(''to'', opt to), (''socketId'', Str (socketId toUser))])
                 (emit (ToRoom (socketId toUser)) ''incomingCall''
                    (Obj [(''from'', Str (user_userId sk)),
                          (''fromName'', opt (user_username sk)),
                          (''offer'', offer), (''callType'', callType)]) st)
             else
               emit (ToSocket (sock_id sk)) ''userUnavailable'' (Obj [(''to'', opt to)])
                 (st\<lparr>users := AList.delete (socketId toUser) (users st)\<rparr>)
         | None \<Rightarrow> st))"

definition answerCall :: "socket \<Rightarrow> string option \<Rightarrow> jsval \<Rightarrow> string option \<Rightarrow> state \<Rightarrow> state" where
  "answerCall sk to answer roomId st =
     (if truthy roomId then
        emit (ToRoomExcept (sock_id sk) (the_str roomId)) ''callAnswered''
          (Obj [(''from'', Str (user_userId sk)), (''answer'', answer), (''roomId'', opt roomId)]) st
      else
        (case findUserByUserId (users st) to of
           Some toUser \<Rightarrow>
             emit (ToRoom (socketId toUser)) ''callAnswered''
               (Obj [(''from'', Str (user_userId sk)), (''answer'', answer)]) st
         | None \<Rightarrow> st))"

definition iceCandidate :: "socket \<Rightarrow> string option \<Rightarrow> jsval \<Rightarrow> string option \<Rightarrow> state \<Rightarrow> state" where
  "iceCandidate sk to candidate roomId st =
     (if truthy roomId then
        emit (ToRoomExcept (sock_id sk) (the_str roomId)) ''iceCandidate''
          (Obj [(''from'', Str (user_userId sk)), (''candidate'', candidate),
                (''roomId'', opt roomId)]) st
      else
        (case findUserByUserId (users st) to of
           Some toUser \<Rightarrow>
             emit (ToRoom (socketId toUser)) ''iceCandidate''
               (Obj [(''from'', Str (user_userId sk)), (''candidate'', candidate)]) st
         | None \<Rightarrow> st))"

definition incomingCallAck :: "socket \<Rightarrow> string option \<Rightarrow> jsval \<Rightarrow> state \<Rightarrow> state" where
  "incomingCallAck sk from callSessionId st =
     (case findUserByUserId (users st) from of
        Some callerUser \<Rightarrow>
          emit (ToRoom (socketId callerUser)) ''incomingCallAck''
            (Obj [(''from'', Str (user_userId sk)), (''callSessionId'', callSessionId)]) st
      | None \<Rightarrow> st)"

definition endCall :: "socket \<Rightarrow> string option \<Rightarrow> string option \<Rightarrow> state \<Rightarrow> state" where
  "endCall sk to roomId st =
     (if truthy roomId then
        emit (ToRoomExcept (sock_id sk) (the_str roomId)) ''callEnded''
          (Obj [(''from'', Str (user_userId sk)), (''roomId'', opt roomId)]) st
      else
        (case findUserByUserId (users st) to of
           Some toUser \<Rightarrow>
             emit (ToRoom (socketId toUser)) ''callEnded'' (Obj [(''from'', Str (user_userId sk))]) st
         | None \<Rightarrow> st))"

subsection \<open>Group calls\<close>

text \<open>
  One entry of \<^verbatim>\<open>existingParticipants\<close>: \<^verbatim>\<open>users[sid]?.userId\<close> and
  \<^verbatim>\<open>users[sid]?.username\<close> are \<^verbatim>\<open>undefined\<close> for a socket with no registry entry,
  and \<^verbatim>\<open>.filter(p => p.userId)\<close> keeps the entries whose user id is truthy.
\<close>

definition participant :: "(sid \<times> session) list \<Rightarrow> sid \<Rightarrow> sid \<times> string option \<times> string option" where
  "participant us x =
     (case map_of us x of
        None \<Rightarrow> (x, None, None)
      | Some s \<Rightarrow> (x, Some (userId s), Some (username s)))"

definition participant_obj :: "sid \<times> string option \<times> string option \<Rightarrow> jsval" where
  "participant_obj p =
     Obj [(''socketId'', Str (fst p)), (''userId'', opt (fst (snd p))),
          (''username'', opt (snd (snd p)))]"

definition participants :: "state \<Rightarrow> sid \<Rightarrow> room \<Rightarrow> (sid \<times> string option \<times> string option) list" where
  "participants st me r =
     filter (\<lambda>p. truthy (fst (snd p)))
       (map (participant (users st)) (filter (\<lambda>x. x \<noteq> me) (allSockets st r)))"

text \<open>
  \<^verbatim>\<open>allSockets()\<close> returns a promise. With the in-memory adapter the set of socket
  ids is computed when the call is made, and the promise is already resolved. The listener
  and its continuation are taken as one step: no other listener runs between them.
\<close>

definition joinGroupCall :: "socket \<Rightarrow> room \<Rightarrow> string option \<Rightarrow> state \<Rightarrow> state" where
  "joinGroupCall sk callRoomId joinUserId st =
     (let st1 = socket_join (sock_id sk) callRoomId st;
          st2 = emit (ToRoomExcept (sock_id sk) callRoomId) ''userJoinedGroupCall''
                  (Obj [(''userId'', Str (js_or joinUserId (user_userId sk))),
                        (''username'', opt (user_username sk)),
                        (''socketId'', Str (sock_id sk))]) st1
      in emit (ToSocket (sock_id sk)) ''existingParticipants''
           (Obj [(''callRoomId'', Str callRoomId),
                 (''participants'', Arr (map participant_obj (participants st2 (sock_id sk) callRoomId)))])
           st2)"

definition leaveGroupCall :: "socket \<Rightarrow> room \<Rightarrow> state \<Rightarrow> state" where
  "leaveGroupCall sk callRoomId st =
     emit (ToRoomExcept (sock_id sk) callRoomId) ''userLeftGroupCall''
       (Obj [(''userId'', Str (user_userId sk)), (''username'', opt (user_username sk)),
             (''socketId'', Str (sock_id sk))])
       (socket_leave (sock_id sk) callRoomId st)"

definition groupCallOffer :: "socket \<Rightarrow> sid \<Rightarrow> jsval \<Rightarrow> jsval \<Rightarrow> state \<Rightarrow> state" where
  "groupCallOffer sk targetSocketId offer callRoomId st =
     emit (ToRoom targetSocketId) ''groupCallOffer''
       (Obj [(''fromSocketId'', Str (sock_id sk)), (''fromUserId'', Str (user_userId sk)),
             (''fromUsername'', opt (user_username sk)), (''offer'', offer),
             (''callRoomId'', callRoomId)]) st"

definition groupCallAnswer :: "socket \<Rightarrow> sid \<Rightarrow> jsval \<Rightarrow> jsval \<Rightarrow> state \<Rightarrow> state" where
  "groupCallAnswer sk targetSocketId answer callRoomId st =
     emit (ToRoom targetSocketId) ''groupCallAnswer''
       (Obj [(''fromSocketId'', Str (sock_id sk)), (''fromUserId'', Str (user_userId sk)),
             (''fromUsername'', opt (user_username sk)), (''answer'', answer),
             (''callRoomId'', callRoomId)]) st"

definition groupCallIceCandidate :: "socket \<Rightarrow> sid \<Rightarrow> jsval \<Rightarrow> jsval \<Rightarrow> state \<Rightarrow> state" where
  "groupCallIceCandidate sk targetSocketId candidate callRoomId st =
     emit (ToRoom targetSocketId) ''groupCallIceCandidate''
       (Obj [(''fromSocketId'', Str (sock_id sk)), (''fromUserId'', Str (user_userId sk)),
             (''candidate'', candidate), (''callRoomId'', callRoomId)]) st"

definition groupCallSpeaking :: "socket \<Rightarrow> room \<Rightarrow> jsval \<Rightarrow> state \<Rightarrow> state" where
  "groupCallSpeaking sk callRoomId isSpeaking st =
     emit (ToRoomExcept (sock_id sk) callRoomId) ''participantSpeaking''
       (Obj [(''userId'', Str (user_userId sk)), (''username'', opt (user_username sk)),
             (''isSpeaking'', isSpeaking)]) st"

subsection \<open>Disconnect, the deletion timer and the sweep\<close>

text \<open>The loop over \<^verbatim>\<open>Object.keys(rooms)\<close> of the disconnect listener.\<close>

fun remove_from_rooms :: "uid \<Rightarrow> room list \<Rightarrow> (room \<times> uid list) list \<Rightarrow> (room \<times> uid list) list" where
  "remove_from_rooms u [] rs = rs"
| "remove_from_rooms u (k # ks) rs =
     (case map_of rs k of
        None \<Rightarrow> remove_from_rooms u ks rs
      | Some ms \<Rightarrow>
          if u \<in> set ms then
            (let ms' = removeAll u ms
             in if ms' = [] then remove_from_rooms u ks (AList.delete k rs)
                else remove_from_rooms u ks (AList.update k ms' rs))
          else remove_from_rooms u ks rs)"

definition disconnect :: "socket \<Rightarrow> time \<Rightarrow> state \<Rightarrow> state" where
  "disconnect sk now st =
     (case map_of (users st) (sock_id sk) of
        None \<Rightarrow> st
      | Some s \<Rightarrow>
          (let st1 = st\<lparr>users := AList.update (sock_id sk)
                           (s\<lparr>status := Offline, lastActive := now\<rparr>) (users st)\<rparr>;
               st2 = emit (Broadcast (sock_id sk)) ''userStatusChange''
                       (Obj [(''userId'', Str (user_userId sk)), (''status'', Str ''offline'')]) st1;
               st3 = st2\<lparr>timers := timers st2 @ [(sock_id sk, now + 5 * 60 * 1000)]\<rparr>
           in st3\<lparr>rooms := remove_from_rooms (user_userId sk) (map fst (rooms st3)) (rooms st3)\<rparr>))"

text \<open>The callback given to \<^verbatim>\<open>setTimeout\<close>, and the firing of a pending timer.\<close>

definition timeout_callback :: "sid \<Rightarrow> state \<Rightarrow> state" where
  "timeout_callback x st =
     (case map_of (users st) x of
        None \<Rightarrow> st
      | Some s \<Rightarrow> if status s = Offline then st\<lparr>users := AList.delete x (users st)\<rparr> else st)"

definition fire_timer :: "sid \<Rightarrow> state \<Rightarrow> state" where
  "fire_timer x st =
     (case map_of (timers st) x of
        None \<Rightarrow> st
      | Some due \<Rightarrow> timeout_callback x (st\<lparr>timers := remove1 (x, due) (timers st)\<rparr>))"

text \<open>The callback given to \<^verbatim>\<open>setInterval\<close>.\<close>

fun sweep_loop :: "sid list \<Rightarrow> sid list \<Rightarrow> (sid \<times> session) list \<Rightarrow> (sid \<times> session) list" where
  "sweep_loop live [] us = us"
| "sweep_loop live (k # ks) us =
     (if k \<in> set live then sweep_loop live ks us
      else sweep_loop live ks (AList.delete k us))"

definition sweep :: "state \<Rightarrow> state" where
  "sweep st = st\<lparr>users := sweep_loop (sockets st) (map fst (users st)) (users st)\<rparr>"

subsection \<open>Events and runs\<close>

datatype event =
    Connection socket time
  | UpdateLanguagePreference socket "language_data option"
  | JoinRoom socket room
  | LeaveRoom socket room
  | SendMessage socket time sendMessage_data
  | Typing socket "string option" "string option" jsval
  | CallUser socket "string option" jsval jsval "string option"
  | AnswerCall socket "string option" jsval "string option"
  | IceCandidate socket "string option" jsval "string option"
  | IncomingCallAck socket "string option" jsval
  | EndCall socket "string option" "string option"
  | JoinGroupCall socket room "string option"
  | LeaveGroupCall socket room
  | GroupCallOffer socket sid jsval jsval
  | GroupCallAnswer socket sid jsval jsval
  | GroupCallIceCandidate socket sid jsval jsval
  | GroupCallSpeaking socket room jsval
  | Disconnect socket time
  | Timeout sid
  | Sweep

text \<open>
  The transport opens the channel before the connection listener runs and closes it before
  the disconnect listener runs. The payloads of the events other than
  \<^verbatim>\<open>updateLanguagePreference\<close> are objects, given by the fields their listeners
  destructure.
\<close>

fun step :: "event \<Rightarrow> state \<Rightarrow> error + state" where
  "step (Connection sk now) st = connection sk now (transport_open (sock_id sk) st)"
| "step (UpdateLanguagePreference sk data) st = updateLanguagePreference sk data st"
| "step (JoinRoom sk r) st = joinRoom sk r st"
| "step (LeaveRoom sk r) st = leaveRoom sk r st"
| "step (SendMessage sk now d) st = Inr (sendMessage sk now d st)"
| "step (Typing sk receiverId roomId isTyping) st = Inr (typing sk receiverId roomId isTyping st)"
| "step (CallUser sk to offer callType roomId) st = Inr (callUser sk to offer callType roomId st)"
| "step (AnswerCall sk to answer roomId) st = Inr (answerCall sk to answer roomId st)"
| "step (IceCandidate sk to candidate roomId) st = Inr (iceCandidate sk to candidate roomId st)"
| "step (IncomingCallAck sk from callSessionId) st = Inr (incomingCallAck sk from callSessionId st)"
| "step (EndCall sk to roomId) st = Inr (endCall sk to roomId st)"
| "step (JoinGroupCall sk callRoomId joinUserId) st = Inr (joinGroupCall sk callRoomId joinUserId st)"
| "step (LeaveGroupCall sk callRoomId) st = Inr (leaveGroupCall sk callRoomId st)"
| "step (GroupCallOffer sk t offer callRoomId) st = Inr (groupCallOffer sk t offer callRoomId st)"
| "step (GroupCallAnswer sk t answer callRoomId) st = Inr (groupCallAnswer sk t answer callRoomId st)"
| "step (GroupCallIceCandidate sk t candidate callRoomId) st =
     Inr (groupCallIceCandidate sk t candidate callRoomId st)"
| "step (GroupCallSpeaking sk callRoomId isSpeaking) st = Inr (groupCallSpeaking sk callRoomId isSpeaking st)"
| "step (Disconnect sk now) st = Inr (disconnect sk now (transport_close (sock_id sk) st))"
| "step (Timeout x) st = Inr (fire_timer x st)"
| "step Sweep st = Inr (sweep st)"

fun run :: "event list \<Rightarrow> state \<Rightarrow> error + state" where
  "run [] st = Inr st"
| "run (e # es) st = (case step e st of Inl x \<Rightarrow> Inl x | Inr st' \<Rightarrow> run es st')"

subsection \<open>Observing a run\<close>

text \<open>
  The emissions of one event name, the emissions a step added, and a field of an emitted
  object.
\<close>

definition emitted :: "string \<Rightarrow> state \<Rightarrow> emission list" where
  "emitted ev st = filter (\<lambda>e. fst (snd e) = ev) (outbox st)"

definition new_emissions :: "state \<Rightarrow> state \<Rightarrow> emission list" where
  "new_emissions st st' = drop (length (outbox st)) (outbox st')"

fun field :: "jsval \<Rightarrow> string \<Rightarrow> jsval" where
  "field (Obj fs) k = (case map_of fs k of Some v \<Rightarrow> v | None \<Rightarrow> Undefined)"
| "field v k = Undefined"

subsection \<open>Example connections\<close>

text \<open>
  Two tabs of one user whose credential carries a username, a user whose credential
  carries none, and a third user.
\<close>

definition alice1 :: socket where
  "alice1 = \<lparr>sock_id = ''s1'', user_userId = ''alice'', user_username = Some ''Alice'',
              user_user_username = None\<rparr>"

definition alice2 :: socket where
  "alice2 = \<lparr>sock_id = ''s2'', user_userId = ''alice'', user_username = Some ''Alice'',
              user_user_username = None\<rparr>"

definition bob1 :: socket where
  "bob1 = \<lparr>sock_id = ''s3'', user_userId = ''bob'', user_username = None,
            user_user_username = None\<rparr>"

definition carol1 :: socket where
  "carol1 = \<lparr>sock_id = ''s4'', user_userId = ''carol'', user_username = Some ''Carol'',
              user_user_username = None\<rparr>"

text \<open>
  The state after \<open>alice\<close> opens a tab, joins the room \<open>lobby\<close> and opens a second
  tab: the second admission has evicted the first tab's entry, whose channel stays open.
\<close>

definition two_tabs :: state where
  "two_tabs =
     \<lparr>users = [(''s2'', \<lparr>socketId = ''s2'', userId = ''alice'', username = ''Alice'',
                 status = Online, lastActive = 5, preferredLanguage = ''en''\<rparr>)],
      rooms = [(''lobby'', [''alice''])],
      sockets = [''s1'', ''s2''],
      joined = [(''s1'', ''s1''), (''s1'', ''lobby''), (''s2'', ''s2'')],
      timers = [],
      outbox = [(Broadcast ''s1'', ''userStatusChange'',
                  Obj [(''userId'', Str ''alice''), (''status'', Str ''online'')]),
                (ToRoomExcept ''s1'' ''lobby'', ''userJoinedRoom'',
                  Obj [(''userId'', Str ''alice''), (''username'', Str ''Alice''),
                       (''roomId'', Str ''lobby'')]),
                (Broadcast ''s2'', ''userStatusChange'',
                  Obj [(''userId'', Str ''alice''), (''status'', Str ''online'')])]\<rparr>"

text \<open>The state after \<open>alice\<close> and then \<open>bob\<close> have connected.\<close>

definition both_online :: state where
  "both_online =
     \<lparr>users = [(''s1'', \<lparr>socketId = ''s1'', userId = ''alice'', username = ''Alice'',
                 status = Online, lastActive = 0, preferredLanguage = ''en''\<rparr>),
               (''s3'', \<lparr>socketId = ''s3'', userId = ''bob'', username = ''Unknown'',
                 status = Online, lastActive = 1, preferredLanguage = ''en''\<rparr>)],
      rooms = [],
      sockets = [''s1'', ''s3''],
      joined = [(''s1'', ''s1''), (''s3'', ''s3'')],
      timers = [],
      outbox = [(Broadcast ''s1'', ''userStatusChange'',
                  Obj [(''userId'', Str ''alice''), (''status'', Str ''online'')]),
                (Broadcast ''s3'', ''userStatusChange'',
                  Obj [(''userId'', Str ''bob''), (''status'', Str ''online'')])]\<rparr>"

text \<open>A direct chat message whose payload also claims a sender.\<close>

definition hi_to :: "uid \<Rightarrow> sendMessage_data" where
  "hi_to u = \<lparr>d_receiverId = Some u, d_content = Str ''hi'', d_roomId = None,
              d_senderId = Str ''mallory'', d_senderName = Str ''Mallory''\<rparr>"

subsection \<open>What the admission loop computes, and the shape of the registry\<close>

text \<open>
  The entries the clean-up loop leaves: all but those of user \<open>u\<close> under another socket
  id than \<open>me\<close>.
\<close>

definition evict :: "uid \<Rightarrow> sid \<Rightarrow> (sid \<times> session) list \<Rightarrow> (sid \<times> session) list" where
  "evict u me us = filter (\<lambda>p. \<not> (userId (snd p) = u \<and> fst p \<noteq> me)) us"

text \<open>
  The registry as the listeners keep it: one entry per key, each stored under its own
  \<^verbatim>\<open>socketId\<close>, and no two entries with the same \<^verbatim>\<open>userId\<close>.
\<close>

definition registry_ok :: "(sid \<times> session) list \<Rightarrow> bool" where
  "registry_ok us \<longleftrightarrow>
     distinct (map fst us) \<and> (\<forall>p\<in>set us. socketId (snd p) = fst p) \<and>
     distinct (map (userId \<circ> snd) us)"

text \<open>
  The state after \<open>alice\<close> and \<open>bob\<close> have connected and \<open>bob\<close> has disconnected:
  his entry is offline, his channel is closed, his deletion timer is pending.
\<close>

definition bob_gone :: state where
  "bob_gone =
     \<lparr>users = [(''s1'', \<lparr>socketId = ''s1'', userId = ''alice'', username = ''Alice'',
                 status = Online, lastActive = 0, preferredLanguage = ''en''\<rparr>),
               (''s3'', \<lparr>socketId = ''s3'', userId = ''bob'', username = ''Unknown'',
                 status = Offline, lastActive = 2, preferredLanguage = ''en''\<rparr>)],
      rooms = [],
      sockets = [''s1''],
      joined = [(''s1'', ''s1'')],
      timers = [(''s3'', 300002)],
      outbox = [(Broadcast ''s1'', ''userStatusChange'',
                  Obj [(''userId'', Str ''alice''), (''status'', Str ''online'')]),
                (Broadcast ''s3'', ''userStatusChange'',
                  Obj [(''userId'', Str ''bob''), (''status'', Str ''online'')]),
                (Broadcast ''s3'', ''userStatusChange'',
                  Obj [(''userId'', Str ''bob''), (''status'', Str ''offline'')])]\<rparr>"

text \<open>No key of \<^verbatim>\<open>rooms\<close> holds an empty member set.\<close>

definition rooms_nonempty :: "(room \<times> uid list) list \<Rightarrow> bool" where
  "rooms_nonempty rs \<longleftrightarrow> (\<forall>p\<in>set rs. snd p \<noteq> [])"

subsection \<open>Events that concern an offline entry\<close>

text \<open>
  The events after which the entry stored under socket id \<open>k\<close> for user \<open>u\<close> may be gone:
  its deletion timer, the sweep, an admission of the same user (or under the same id), and
  a direct call to \<open>u\<close>.
\<close>

fun evicts :: "sid \<Rightarrow> uid \<Rightarrow> event \<Rightarrow> bool" where
  "evicts k u (Timeout x) = (x = k)"
| "evicts k u Sweep = True"
| "evicts k u (Connection sk now) = (user_userId sk = u \<or> sock_id sk = k)"
| "evicts k u (CallUser sk to offer callType roomId) = (\<not> truthy roomId \<and> to = Some u)"
| "evicts k u e = False"

text \<open>
  The events of the connection \<open>k\<close> itself that write to its entry. A closed connection
  sends none.
\<close>

fun own_event :: "sid \<Rightarrow> event \<Rightarrow> bool" where
  "own_event k (UpdateLanguagePreference sk data) = (sock_id sk = k)"
| "own_event k (Disconnect sk now) = (sock_id sk = k)"
| "own_event k e = False"

text \<open>A later connection of \<open>bob\<close>.\<close>

definition bob2 :: socket where
  "bob2 = \<lparr>sock_id = ''s5'', user_userId = ''bob'', user_username = None,
            user_user_username = None\<rparr>"

section \<open>Evaluation on concrete runs\<close>

lemmas transport_defs = transport_open_def transport_close_def socket_join_def socket_leave_def
  allSockets_def set_add_def emit_def

lemmas example_defs = alice1_def alice2_def bob1_def carol1_def initial_def

lemmas connection_defs = connection_def handleAudioTranslation_def
  handleGroupCallAudioTranslation_def new_session_def display_name_def

text \<open>The example states are what the runs produce.\<close>

lemma run_two_tabs:
  "run [Connection alice1 0, JoinRoom alice1 ''lobby'', Connection alice2 5] initial = Inr two_tabs"
  by (simp add: example_defs transport_defs connection_defs joinRoom_def getprop_def
      object_prototype_keys_def two_tabs_def)

lemma run_both_online:
  "run [Connection alice1 0, Connection bob1 1] initial = Inr both_online"
  by (simp add: example_defs transport_defs connection_defs both_online_def)

lemma run_bob_gone:
  "run [Connection alice1 0, Connection bob1 1, Disconnect bob1 2] initial = Inr bob_gone"
  by (simp add: example_defs transport_defs connection_defs disconnect_def bob_gone_def)

section \<open>Association lists and the lookup\<close>

lemma set_allSockets:
  "x \<in> set (allSockets st r) \<longleftrightarrow> x \<in> set (sockets st) \<and> (x, r) \<in> set (joined st)"
  by (force simp: allSockets_def)

lemma distinct_allSockets:
  assumes "distinct (joined st)"
  shows "distinct (allSockets st r)"
proof -
  have "inj_on fst (set (filter (\<lambda>p. snd p = r) (joined st)))"
    by (auto intro!: inj_onI prod_eqI)
  with assms have "distinct (map fst (filter (\<lambda>p. snd p = r) (joined st)))"
    by (simp add: distinct_map)
  then show ?thesis by (simp add: allSockets_def)
qed

lemma find_filter_conv:
  "List.find P xs = (case filter P xs of [] \<Rightarrow> None | x # _ \<Rightarrow> Some x)"
  by (induction xs) simp_all

lemma findUserByUserId_filter:
  "findUserByUserId us (Some u) =
     (case filter (\<lambda>s. userId s = u) (map snd us) of [] \<Rightarrow> None | s # _ \<Rightarrow> Some s)"
proof -
  have "(\<lambda>user. Some (userId user) = Some u) = (\<lambda>s. userId s = u)" by auto
  then show ?thesis by (simp add: findUserByUserId_def find_filter_conv)
qed

lemma findUserByUserId_SomeD:
  "findUserByUserId us v = Some t \<Longrightarrow> t \<in> snd ` set us \<and> v = Some (userId t)"
  by (auto simp: findUserByUserId_def find_Some_iff)

lemma findUserByUserId_None_iff:
  "findUserByUserId us v = None \<longleftrightarrow> (\<forall>p\<in>set us. Some (userId (snd p)) \<noteq> v)"
  by (auto simp: findUserByUserId_def find_None_iff)

lemma distinct_keys_entry:
  assumes "distinct (map fst al)" "map_of al k = Some v" "p \<in> set al" "fst p = k"
  shows "snd p = v"
proof -
  from assms(3,4) have "(k, snd p) \<in> set al" by (metis prod.collapse)
  with assms(1) have "map_of al k = Some (snd p)" by (rule map_of_is_SomeI)
  with assms(2) show ?thesis by simp
qed

lemma filter_distinct_key:
  "distinct (map f xs) \<Longrightarrow> x \<in> set xs \<Longrightarrow> filter (\<lambda>y. f y = f x) xs = [x]"
proof (induction xs)
  case Nil
  then show ?case by simp
next
  case (Cons a xs)
  show ?case
  proof (cases "a = x")
    case True
    with Cons.prems(1) have "f x \<notin> f ` set xs" by simp
    then have "\<forall>y\<in>set xs. f y \<noteq> f x" by (metis image_eqI)
    then have "filter (\<lambda>y. f y = f x) xs = []" by (simp add: filter_empty_conv)
    with True show ?thesis by simp
  next
    case False
    with Cons.prems have "x \<in> set xs" "f a \<noteq> f x" by auto
    with Cons show ?thesis by simp
  qed
qed

lemma set_update_subset: "set (AList.update k v al) \<subseteq> insert (k, v) (set al)"
  by (induction al) auto

lemma update_unique_user:
  assumes "\<forall>p\<in>set al. userId (snd p) = u \<longrightarrow> fst p = k" "distinct (map fst al)" "userId v = u"
  shows "filter (\<lambda>s. userId s = u) (map snd (AList.update k v al)) = [v]"
  using assms
proof (induction al)
  case Nil
  then show ?case by simp
next
  case (Cons p ps)
  show ?case
  proof (cases "fst p = k")
    case True
    with Cons.prems(2) have "k \<notin> fst ` set ps" by auto
    with Cons.prems(1) have "\<forall>q\<in>set ps. userId (snd q) \<noteq> u"
      by (metis image_eqI list.set_intros(2))
    then have "filter (\<lambda>s. userId s = u) (map snd ps) = []"
      by (simp add: filter_empty_conv)
    with True Cons.prems(3) show ?thesis by simp
  next
    case False
    with Cons.prems(1) have "userId (snd p) \<noteq> u" by auto
    with False Cons show ?thesis by simp
  qed
qed

lemma update_same_user:
  "map_of al k = Some s \<Longrightarrow> userId v = userId s \<Longrightarrow>
   map (userId \<circ> snd) (AList.update k v al) = map (userId \<circ> snd) al"
  by (induction al) (auto split: if_splits)

lemma distinct_users_update_new:
  assumes "distinct (map fst al)" "distinct (map (userId \<circ> snd) al)"
    "\<forall>p\<in>set al. userId (snd p) = userId v \<longrightarrow> fst p = k"
  shows "distinct (map (userId \<circ> snd) (AList.update k v al))"
  using assms
proof (induction al)
  case Nil
  then show ?case by simp
next
  case (Cons p ps)
  show ?case
  proof (cases "fst p = k")
    case True
    with Cons.prems(1) have "k \<notin> fst ` set ps" by auto
    with Cons.prems(3) have "\<forall>q\<in>set ps. userId (snd q) \<noteq> userId v"
      by (metis image_eqI list.set_intros(2))
    with True Cons.prems(2) show ?thesis by auto
  next
    case False
    with Cons.prems(3) have ne: "userId (snd p) \<noteq> userId v" by auto
    have "userId (snd p) \<notin> (userId \<circ> snd) ` set (AList.update k v ps)"
    proof
      assume "userId (snd p) \<in> (userId \<circ> snd) ` set (AList.update k v ps)"
      then obtain q where q: "q \<in> set (AList.update k v ps)" "userId (snd q) = userId (snd p)"
        by auto
      from q(1) set_update_subset [of k v ps] have "q = (k, v) \<or> q \<in> set ps" by auto
      moreover from Cons.prems(2) have "userId (snd p) \<notin> (userId \<circ> snd) ` set ps" by simp
      ultimately show False using q(2) ne by (auto simp: image_iff)
    qed
    with False Cons show ?thesis by simp
  qed
qed

section \<open>The admission loop\<close>

text \<open>On an object, whose keys are distinct, the clean-up loop never throws and is a filter.\<close>

lemma cleanup_filter:
  assumes "distinct (map fst us)" "distinct ks" "set ks \<subseteq> fst ` set us"
  shows "cleanup u me ks us =
           Inr (filter (\<lambda>p. \<not> (fst p \<in> set ks \<and> userId (snd p) = u \<and> fst p \<noteq> me)) us)"
  using assms
proof (induction ks arbitrary: us)
  case Nil
  then show ?case by simp
next
  case (Cons k ks)
  from Cons.prems(3) have "k \<in> fst ` set us" by simp
  then obtain s where s: "map_of us k = Some s"
    by (metis domD dom_map_of_conv_image_fst)
  have ent: "\<And>p. p \<in> set us \<Longrightarrow> fst p = k \<Longrightarrow> snd p = s"
    using distinct_keys_entry [OF Cons.prems(1) s] by blast
  from Cons.prems(2) have k: "k \<notin> set ks" and dks: "distinct ks" by simp_all
  show ?case
  proof (cases "userId s = u \<and> k \<noteq> me")
    case True
    have d': "distinct (map fst (AList.delete k us))"
      using Cons.prems(1) by (rule distinct_delete)
    have sub: "set ks \<subseteq> fst ` set (AList.delete k us)"
    proof
      fix x assume x: "x \<in> set ks"
      with Cons.prems(3) have "x \<in> set (map fst us)" by auto
      moreover from x k have "x \<noteq> k" by auto
      ultimately have "x \<in> set (map fst (AList.delete k us))"
        by (simp add: delete_keys)
      then show "x \<in> fst ` set (AList.delete k us)" by simp
    qed
    have "cleanup u me (k # ks) us = cleanup u me ks (AList.delete k us)"
      using s True by simp
    also have "\<dots> = Inr (filter (\<lambda>p. \<not> (fst p \<in> set ks \<and> userId (snd p) = u \<and> fst p \<noteq> me))
                          (AList.delete k us))"
      using Cons.IH [OF d' dks sub] .
    also have "filter (\<lambda>p. \<not> (fst p \<in> set ks \<and> userId (snd p) = u \<and> fst p \<noteq> me))
                 (AList.delete k us) =
               filter (\<lambda>p. \<not> (fst p \<in> set (k # ks) \<and> userId (snd p) = u \<and> fst p \<noteq> me)) us"
      unfolding AList.delete_eq filter_filter
      using True ent by (intro filter_cong) (auto simp: case_prod_beta)
    finally show ?thesis .
  next
    case False
    have "cleanup u me (k # ks) us = cleanup u me ks us"
      using s False by auto
    also have "\<dots> = Inr (filter (\<lambda>p. \<not> (fst p \<in> set ks \<and> userId (snd p) = u \<and> fst p \<noteq> me)) us)"
      using Cons.IH [OF Cons.prems(1) dks] Cons.prems(3) by simp
    also have "filter (\<lambda>p. \<not> (fst p \<in> set ks \<and> userId (snd p) = u \<and> fst p \<noteq> me)) us =
               filter (\<lambda>p. \<not> (fst p \<in> set (k # ks) \<and> userId (snd p) = u \<and> fst p \<noteq> me)) us"
      using False ent by (intro filter_cong) auto
    finally show ?thesis .
  qed
qed

lemma cleanup_all_keys:
  assumes "distinct (map fst us)"
  shows "cleanup u me (map fst us) us = Inr (evict u me us)"
proof -
  have "cleanup u me (map fst us) us =
          Inr (filter (\<lambda>p. \<not> (fst p \<in> set (map fst us) \<and> userId (snd p) = u \<and> fst p \<noteq> me)) us)"
    using assms by (intro cleanup_filter) simp_all
  also have "filter (\<lambda>p. \<not> (fst p \<in> set (map fst us) \<and> userId (snd p) = u \<and> fst p \<noteq> me)) us =
             evict u me us"
    unfolding evict_def by (intro filter_cong) auto
  finally show ?thesis .
qed

lemma evict_props:
  "\<forall>p\<in>set (evict u me us). userId (snd p) = u \<longrightarrow> fst p = me"
  "distinct (map fst us) \<Longrightarrow> distinct (map fst (evict u me us))"
  by (auto simp: evict_def distinct_map_filter)

lemma map_of_evict:
  assumes "distinct (map fst us)"
  shows "map_of (evict u me us) k =
     (case map_of us k of None \<Rightarrow> None
      | Some s \<Rightarrow> if userId s = u \<and> k \<noteq> me then None else Some s)"
proof (cases "map_of us k")
  case None
  then have "k \<notin> fst ` set us" by (simp add: map_of_eq_None_iff)
  then have "k \<notin> fst ` set (evict u me us)" by (auto simp: evict_def)
  then have "map_of (evict u me us) k = None" by (simp add: map_of_eq_None_iff)
  then show ?thesis by (simp add: None)
next
  case (Some s)
  then have mem: "(k, s) \<in> set us" by (rule map_of_SomeD)
  show ?thesis
  proof (cases "userId s = u \<and> k \<noteq> me")
    case True
    have "k \<notin> fst ` set (evict u me us)"
    proof
      assume "k \<in> fst ` set (evict u me us)"
      then obtain p where p: "p \<in> set us" "fst p = k" "\<not> (userId (snd p) = u \<and> fst p \<noteq> me)"
        by (auto simp: evict_def)
      from distinct_keys_entry [OF assms Some p(1,2)] p(2,3) True show False by simp
    qed
    then have "map_of (evict u me us) k = None" by (simp add: map_of_eq_None_iff)
    then show ?thesis using True by (simp add: Some)
  next
    case False
    with mem have "(k, s) \<in> set (evict u me us)" by (auto simp: evict_def)
    with evict_props(2) [OF assms] have "map_of (evict u me us) k = Some s"
      by (rule map_of_is_SomeI)
    then show ?thesis using Some False by simp
  qed
qed

lemma connection_result:
  assumes "distinct (map fst (users st))"
  shows "connection sk now st =
           Inr (emit (Broadcast (sock_id sk)) ''userStatusChange''
                  (Obj [(''userId'', Str (user_userId sk)), (''status'', Str ''online'')])
                  (st\<lparr>users := AList.update (sock_id sk) (new_session sk now)
                                  (evict (user_userId sk) (sock_id sk) (users st))\<rparr>))"
  by (simp add: connection_def cleanup_all_keys [OF assms] handleAudioTranslation_def
      handleGroupCallAudioTranslation_def)

lemma connection_step_unique:
  assumes "distinct (map fst (users st))"
  shows "\<exists>st'. step (Connection sk now) st = Inr st' \<and>
           filter (\<lambda>s. userId s = user_userId sk) (map snd (users st')) = [new_session sk now] \<and>
           findUserByUserId (users st') (Some (user_userId sk)) = Some (new_session sk now) \<and>
           (\<forall>k s. map_of (users st) k = Some s \<and> k \<noteq> sock_id sk \<longrightarrow>
              map_of (users st') k = (if userId s = user_userId sk then None else Some s))"
proof -
  let ?st0 = "transport_open (sock_id sk) st"
  let ?us = "AList.update (sock_id sk) (new_session sk now)
               (evict (user_userId sk) (sock_id sk) (users st))"
  have u0: "users ?st0 = users st" by (simp add: transport_defs)
  with assms have d0: "distinct (map fst (users ?st0))" by simp
  define st' where "st' = emit (Broadcast (sock_id sk)) ''userStatusChange''
      (Obj [(''userId'', Str (user_userId sk)), (''status'', Str ''online'')])
      (?st0\<lparr>users := ?us\<rparr>)"
  have r: "step (Connection sk now) st = Inr st'"
    using connection_result [OF d0] by (simp add: st'_def u0)
  have us: "users st' = ?us" by (simp add: st'_def emit_def)
  have one: "filter (\<lambda>s. userId s = user_userId sk) (map snd ?us) = [new_session sk now]"
    by (rule update_unique_user)
       (simp_all add: evict_props assms new_session_def)
  have look: "findUserByUserId ?us (Some (user_userId sk)) = Some (new_session sk now)"
    by (simp add: findUserByUserId_filter one)
  have others: "\<forall>k s. map_of (users st) k = Some s \<and> k \<noteq> sock_id sk \<longrightarrow>
              map_of ?us k = (if userId s = user_userId sk then None else Some s)"
    by (simp add: update_conv' map_of_evict [OF assms])
  from r one look others us show ?thesis by auto
qed

section \<open>The shape of the registry\<close>

text \<open>Every event keeps the shape of the registry, so it holds after every run.\<close>

lemma registry_ok_filter: "registry_ok us \<Longrightarrow> registry_ok (filter P us)"
  by (auto simp: registry_ok_def distinct_map_filter)

lemma registry_ok_delete: "registry_ok us \<Longrightarrow> registry_ok (AList.delete k us)"
  unfolding AList.delete_eq by (rule registry_ok_filter)

lemma registry_ok_admit:
  assumes "registry_ok us"
  shows "registry_ok (AList.update (sock_id sk) (new_session sk now) (evict (user_userId sk) (sock_id sk) us))"
proof -
  let ?ev = "evict (user_userId sk) (sock_id sk) us"
  have ev: "registry_ok ?ev" unfolding evict_def using assms by (rule registry_ok_filter)
  have "distinct (map (userId \<circ> snd) (AList.update (sock_id sk) (new_session sk now) ?ev))"
    using ev evict_props(1) [of "user_userId sk" "sock_id sk" us]
    by (intro distinct_users_update_new) (simp_all add: registry_ok_def new_session_def)
  moreover have "distinct (map fst (AList.update (sock_id sk) (new_session sk now) ?ev))"
    using ev by (simp add: registry_ok_def distinct_update)
  moreover have "\<forall>p\<in>set (AList.update (sock_id sk) (new_session sk now) ?ev). socketId (snd p) = fst p"
    using ev set_update_subset [of "sock_id sk" "new_session sk now" ?ev]
    by (auto simp: registry_ok_def new_session_def)
  ultimately show ?thesis by (simp add: registry_ok_def)
qed

lemma registry_ok_modify:
  assumes "registry_ok us" "map_of us k = Some s" "userId v = userId s" "socketId v = socketId s"
  shows "registry_ok (AList.update k v us)"
proof -
  from assms(2) have mem: "(k, s) \<in> set us" by (rule map_of_SomeD)
  with assms(1) have "socketId s = k" by (auto simp: registry_ok_def)
  with assms(4) have "socketId v = k" by simp
  with assms(1) set_update_subset [of k v us]
  have "\<forall>p\<in>set (AList.update k v us). socketId (snd p) = fst p"
    by (auto simp: registry_ok_def)
  moreover have "distinct (map fst (AList.update k v us))"
    using assms(1) by (simp add: registry_ok_def distinct_update)
  moreover have "distinct (map (userId \<circ> snd) (AList.update k v us))"
    using assms(1) update_same_user [OF assms(2,3)] by (simp add: registry_ok_def)
  ultimately show ?thesis by (simp add: registry_ok_def)
qed

lemma registry_ok_sweep_loop: "registry_ok us \<Longrightarrow> registry_ok (sweep_loop live ks us)"
  by (induction ks arbitrary: us) (simp_all add: registry_ok_delete)

lemma step_registry_ok:
  assumes "registry_ok (users st)" "step e st = Inr st'"
  shows "registry_ok (users st')"
proof (cases e)
  case (Connection sk now)
  have "users (transport_open (sock_id sk) st) = users st" by (simp add: transport_defs)
  with assms(1) have d: "distinct (map fst (users (transport_open (sock_id sk) st)))"
    by (simp add: registry_ok_def)
  from assms(2) Connection connection_result [OF d]
  have "users st' = AList.update (sock_id sk) (new_session sk now)
                      (evict (user_userId sk) (sock_id sk) (users st))"
    by (auto simp: transport_defs)
  with registry_ok_admit [OF assms(1)] show ?thesis by simp
next
  case (UpdateLanguagePreference sk data)
  with assms show ?thesis
    by (auto simp: updateLanguagePreference_def emit_def registry_ok_modify split: option.splits if_splits)
next
  case (JoinRoom sk r)
  with assms show ?thesis
    by (auto simp: joinRoom_def Let_def transport_defs split: property.splits)
next
  case (LeaveRoom sk r)
  with assms show ?thesis
    by (auto simp: leaveRoom_def Let_def transport_defs split: property.splits)
next
  case (SendMessage sk now d)
  with assms show ?thesis
    by (auto simp: sendMessage_def Let_def emit_def split: option.splits)
next
  case (Typing sk receiverId roomId isTyping)
  with assms show ?thesis
    by (auto simp: typing_def Let_def emit_def split: option.splits)
next
  case (CallUser sk to offer callType roomId)
  with assms show ?thesis
    by (auto simp: callUser_def emit_def registry_ok_delete split: option.splits if_splits)
next
  case (AnswerCall sk to answer roomId)
  with assms show ?thesis
    by (auto simp: answerCall_def emit_def split: option.splits)
next
  case (IceCandidate sk to candidate roomId)
  with assms show ?thesis
    by (auto simp: iceCandidate_def emit_def split: option.splits)
next
  case (IncomingCallAck sk frm callSessionId)
  with assms show ?thesis
    by (auto simp: incomingCallAck_def emit_def split: option.splits)
next
  case (EndCall sk to roomId)
  with assms show ?thesis
    by (auto simp: endCall_def emit_def split: option.splits)
next
  case (JoinGroupCall sk callRoomId joinUserId)
  with assms show ?thesis
    by (auto simp: joinGroupCall_def Let_def transport_defs)
next
  case (LeaveGroupCall sk callRoomId)
  with assms show ?thesis
    by (auto simp: leaveGroupCall_def transport_defs)
next
  case (GroupCallOffer sk t offer callRoomId)
  with assms show ?thesis by (auto simp: groupCallOffer_def emit_def)
next
  case (GroupCallAnswer sk t answer callRoomId)
  with assms show ?thesis by (auto simp: groupCallAnswer_def emit_def)
next
  case (GroupCallIceCandidate sk t candidate callRoomId)
  with assms show ?thesis by (auto simp: groupCallIceCandidate_def emit_def)
next
  case (GroupCallSpeaking sk callRoomId isSpeaking)
  with assms show ?thesis by (auto simp: groupCallSpeaking_def emit_def)
next
  case (Disconnect sk now)
  with assms show ?thesis
    by (auto simp: disconnect_def Let_def emit_def transport_close_def registry_ok_modify
        split: option.splits)
next
  case (Timeout x)
  with assms show ?thesis
    by (auto simp: fire_timer_def timeout_callback_def registry_ok_delete split: option.splits if_splits)
next
  case Sweep
  with assms show ?thesis
    by (auto simp: sweep_def registry_ok_sweep_loop)
qed

lemma run_registry_ok:
  "registry_ok (users st) \<Longrightarrow> run es st = Inr st' \<Longrightarrow> registry_ok (users st')"
proof (induction es arbitrary: st)
  case Nil
  then show ?case by simp
next
  case (Cons e es)
  then show ?case by (auto split: sum.splits dest: step_registry_ok)
qed

lemma reachable_registry_ok: "run es initial = Inr st \<Longrightarrow> registry_ok (users st)"
  by (rule run_registry_ok [of initial]) (simp_all add: initial_def registry_ok_def)

lemma registry_lookup:
  assumes "registry_ok us" "map_of us k = Some s"
  shows "findUserByUserId us (Some (userId s)) = Some s" and "socketId s = k"
proof -
  from assms(2) have mem: "(k, s) \<in> set us" by (rule map_of_SomeD)
  with assms(1) show "socketId s = k" by (auto simp: registry_ok_def)
  from assms(1) have "distinct (map userId (map snd us))" by (simp add: registry_ok_def)
  moreover from mem have "s \<in> set (map snd us)" by force
  ultimately have "filter (\<lambda>y. userId y = userId s) (map snd us) = [s]"
    by (rule filter_distinct_key)
  then show "findUserByUserId us (Some (userId s)) = Some s"
    by (simp add: findUserByUserId_filter)
qed

lemma registry_only_entry:
  assumes ok: "registry_ok us" and ent: "map_of us k = Some s" and p: "p \<in> set us"
    and u: "userId (snd p) = userId s"
  shows "p = (k, s)"
proof -
  from ent have mem: "(k, s) \<in> set us" by (rule map_of_SomeD)
  from ok have inj: "inj_on (userId \<circ> snd) (set us)"
    by (simp add: registry_ok_def distinct_map)
  from u have eq: "(userId \<circ> snd) p = (userId \<circ> snd) (k, s)" by simp
  from inj eq p mem show ?thesis by (rule inj_onD)
qed

lemma registry_delete_found:
  assumes "registry_ok us" "findUserByUserId us v = Some t"
  shows "findUserByUserId (AList.delete (socketId t) us) v = None"
proof -
  from findUserByUserId_SomeD [OF assms(2)]
  obtain k where mem: "(k, t) \<in> set us" and v: "v = Some (userId t)" by auto
  from assms(1) mem have k: "socketId t = k" by (auto simp: registry_ok_def)
  have "\<forall>p\<in>set (AList.delete (socketId t) us). userId (snd p) \<noteq> userId t"
  proof
    fix p assume p: "p \<in> set (AList.delete (socketId t) us)"
    then have pm: "p \<in> set us" and pk: "fst p \<noteq> k" using k by (auto simp: AList.delete_eq)
    show "userId (snd p) \<noteq> userId t"
    proof
      assume "userId (snd p) = userId t"
      then have eq: "(userId \<circ> snd) p = (userId \<circ> snd) (k, t)" by simp
      from assms(1) have inj: "inj_on (userId \<circ> snd) (set us)"
        by (simp add: registry_ok_def distinct_map)
      from inj eq pm mem have "p = (k, t)" by (rule inj_onD)
      with pk show False by simp
    qed
  qed
  then show ?thesis by (simp add: findUserByUserId_None_iff v)
qed

lemma run_append:
  "run (es @ es') st = (case run es st of Inl x \<Rightarrow> Inl x | Inr st' \<Rightarrow> run es' st')"
  by (induction es arbitrary: st) (auto split: sum.splits)

lemma admissions_succeed:
  "registry_ok (users st) \<Longrightarrow>
   \<exists>st'. run (map (\<lambda>c. Connection (fst c) (snd c)) cs) st = Inr st' \<and> registry_ok (users st')"
proof (induction cs arbitrary: st)
  case Nil
  then show ?case by simp
next
  case (Cons c cs)
  from Cons.prems have "distinct (map fst (users st))" by (simp add: registry_ok_def)
  from connection_step_unique [OF this, of "fst c" "snd c"]
  obtain st1 where st1: "step (Connection (fst c) (snd c)) st = Inr st1" by blast
  from step_registry_ok [OF Cons.prems st1] have "registry_ok (users st1)" .
  from Cons.IH [OF this] st1 show ?case by simp
qed

section \<open>One session per user\<close>

text \<open>
  C1: from any registry (an object, so with one entry per key), an admission for user
  \<open>u\<close> succeeds and leaves exactly one session whose \<^verbatim>\<open>userId\<close> is \<open>u\<close>, the one
  just created; \<^verbatim>\<open>findUserByUserId\<close> returns it. Every entry that was stored for \<open>u\<close>
  under another socket id is gone, and the entries of other users under other socket ids
  are as before. In particular every sequence of admissions from the empty registry
  succeeds, and after its last admission the lookup for that user returns the session of
  that admission and no other session carries that user id.
\<close>

theorem admission_one_session_per_user:
  "(distinct (map fst (users st)) \<longrightarrow>
      (\<exists>st'. step (Connection sk now) st = Inr st' \<and>
         filter (\<lambda>s. userId s = user_userId sk) (map snd (users st')) = [new_session sk now] \<and>
         findUserByUserId (users st') (Some (user_userId sk)) = Some (new_session sk now) \<and>
         (\<forall>k s. map_of (users st) k = Some s \<and> k \<noteq> sock_id sk \<longrightarrow>
            map_of (users st') k = (if userId s = user_userId sk then None else Some s)))) \<and>
   (\<exists>st'. run (map (\<lambda>c. Connection (fst c) (snd c)) cs @ [Connection sk now]) initial = Inr st' \<and>
      filter (\<lambda>s. userId s = user_userId sk) (map snd (users st')) = [new_session sk now] \<and>
      findUserByUserId (users st') (Some (user_userId sk)) = Some (new_session sk now))"
proof -
  have "registry_ok (users initial)" by (simp add: initial_def registry_ok_def)
  from admissions_succeed [OF this, of cs]
  obtain st0 where st0: "run (map (\<lambda>c. Connection (fst c) (snd c)) cs) initial = Inr st0"
    and ok: "registry_ok (users st0)" by blast
  from ok have "distinct (map fst (users st0))" by (simp add: registry_ok_def)
  from connection_step_unique [OF this, of sk now]
  obtain st' where "step (Connection sk now) st0 = Inr st'"
    "filter (\<lambda>s. userId s = user_userId sk) (map snd (users st')) = [new_session sk now]"
    "findUserByUserId (users st') (Some (user_userId sk)) = Some (new_session sk now)"
    by blast
  with st0 have "run (map (\<lambda>c. Connection (fst c) (snd c)) cs @ [Connection sk now]) initial = Inr st' \<and>
      filter (\<lambda>s. userId s = user_userId sk) (map snd (users st')) = [new_session sk now] \<and>
      findUserByUserId (users st') (Some (user_userId sk)) = Some (new_session sk now)"
    by (simp add: run_append)
  then have seq: "\<exists>st'. run (map (\<lambda>c. Connection (fst c) (snd c)) cs @ [Connection sk now]) initial = Inr st' \<and>
      filter (\<lambda>s. userId s = user_userId sk) (map snd (users st')) = [new_session sk now] \<and>
      findUserByUserId (users st') (Some (user_userId sk)) = Some (new_session sk now)" ..
  from connection_step_unique [of st sk now] seq show ?thesis by blast
qed

text \<open>
  \<open>alice\<close> opens a second tab while \<open>bob\<close> is online: her first entry is evicted, the
  lookup returns the second, \<open>bob\<close>'s entry stays.
\<close>

theorem admission_one_session_per_user_witness:
  "distinct (map fst (users both_online)) \<and>
   map_of (users both_online) ''s1'' = Some (new_session alice1 0) \<and>
   (\<exists>st'. step (Connection alice2 5) both_online = Inr st' \<and>
      filter (\<lambda>s. userId s = ''alice'') (map snd (users st')) = [new_session alice2 5] \<and>
      findUserByUserId (users st') (Some ''alice'') = Some (new_session alice2 5) \<and>
      map_of (users st') ''s1'' = None \<and>
      map_of (users st') ''s3'' = map_of (users both_online) ''s3'') \<and>
   (\<exists>st'. run [Connection alice1 0, Connection bob1 1, Connection alice2 5] initial = Inr st' \<and>
      filter (\<lambda>s. userId s = ''alice'') (map snd (users st')) = [new_session alice2 5] \<and>
      findUserByUserId (users st') (Some ''alice'') = Some (new_session alice2 5))"
proof -
  note T = admission_one_session_per_user [of both_online alice2 5 "[(alice1, 0), (bob1, 1)]"]
  have h: "distinct (map fst (users both_online))" by (simp add: both_online_def)
  have a: "map_of (users both_online) ''s1'' = Some (new_session alice1 0)"
    by (simp add: both_online_def new_session_def alice1_def display_name_def)
  obtain b where b: "map_of (users both_online) ''s3'' = Some b" "userId b = ''bob''"
    by (simp add: both_online_def)
  from T h
  obtain st' where st': "step (Connection alice2 5) both_online = Inr st'"
      "filter (\<lambda>s. userId s = user_userId alice2) (map snd (users st')) = [new_session alice2 5]"
      "findUserByUserId (users st') (Some (user_userId alice2)) = Some (new_session alice2 5)"
      "\<forall>k s. map_of (users both_online) k = Some s \<and> k \<noteq> sock_id alice2 \<longrightarrow>
              map_of (users st') k = (if userId s = user_userId alice2 then None else Some s)"
    by blast
  from st'(4) a have "map_of (users st') ''s1'' = None"
    by (simp add: alice2_def new_session_def alice1_def)
  moreover from st'(4) b have "map_of (users st') ''s3'' = map_of (users both_online) ''s3''"
    by (simp add: alice2_def)
  ultimately have one: "\<exists>st'. step (Connection alice2 5) both_online = Inr st' \<and>
      filter (\<lambda>s. userId s = ''alice'') (map snd (users st')) = [new_session alice2 5] \<and>
      findUserByUserId (users st') (Some ''alice'') = Some (new_session alice2 5) \<and>
      map_of (users st') ''s1'' = None \<and>
      map_of (users st') ''s3'' = map_of (users both_online) ''s3''"
    using st'(1,2,3) by (auto simp: alice2_def)
  from T have "\<exists>st'. run (map (\<lambda>c. Connection (fst c) (snd c)) [(alice1, 0), (bob1, 1)] @
                 [Connection alice2 5]) initial = Inr st' \<and>
      filter (\<lambda>s. userId s = user_userId alice2) (map snd (users st')) = [new_session alice2 5] \<and>
      findUserByUserId (users st') (Some (user_userId alice2)) = Some (new_session alice2 5)"
    by blast
  then have two: "\<exists>st'. run [Connection alice1 0, Connection bob1 1, Connection alice2 5] initial = Inr st' \<and>
      filter (\<lambda>s. userId s = ''alice'') (map snd (users st')) = [new_session alice2 5] \<and>
      findUserByUserId (users st') (Some ''alice'') = Some (new_session alice2 5)"
    by (simp add: alice2_def)
  from h a one two show ?thesis by blast
qed

section \<open>Direct messages and direct calls\<close>

text \<open>
  C2: let \<open>B\<close> be registered under the connection \<open>b\<close>, with a non-empty user id, in a
  registry of the shape the listeners keep. Then \<^verbatim>\<open>sendMessage\<close> with
  \<^verbatim>\<open>receiverId = B\<close> emits exactly two events: one \<^verbatim>\<open>receiveMessage\<close> addressed to
  \<open>b\<close> and one \<^verbatim>\<open>messageSent\<close> to the sender. If \<open>b\<close> is open and in its own group,
  \<open>b\<close> receives one \<^verbatim>\<open>receiveMessage\<close>; if the sender is open, it receives one
  \<^verbatim>\<open>messageSent\<close>. When \<^verbatim>\<open>receiverId\<close> is given (truthy) and no session has that
  user id, the only event emitted is the \<^verbatim>\<open>messageSent\<close> to the sender. The registry and
  the rooms are untouched.
\<close>

theorem sendMessage_direct_routing:
  "(registry_ok (users st) \<and> map_of (users st) b = Some rb \<and> userId rb \<noteq> [] \<and>
    d_receiverId d = Some (userId rb) \<longrightarrow>
      new_emissions st (sendMessage sk now d st) =
        [(ToRoom b, ''receiveMessage'', message sk now d),
         (ToSocket (sock_id sk), ''messageSent'',
          Obj [(''success'', Bool True), (''message'', message sk now d)])] \<and>
      (b \<in> set (sockets st) \<and> (b, b) \<in> set (joined st) \<longrightarrow>
         received (sendMessage sk now d st) b ''receiveMessage''
           (new_emissions st (sendMessage sk now d st)) = 1) \<and>
      (sock_id sk \<in> set (sockets st) \<longrightarrow>
         received (sendMessage sk now d st) (sock_id sk) ''messageSent''
           (new_emissions st (sendMessage sk now d st)) = 1)) \<and>
   (truthy (d_receiverId d) \<and> (\<forall>p\<in>set (users st). Some (userId (snd p)) \<noteq> d_receiverId d) \<longrightarrow>
      new_emissions st (sendMessage sk now d st) =
        [(ToSocket (sock_id sk), ''messageSent'',
          Obj [(''success'', Bool True), (''message'', message sk now d)])]) \<and>
   users (sendMessage sk now d st) = users st \<and>
   rooms (sendMessage sk now d st) = rooms st"
proof -
  have frame: "users (sendMessage sk now d st) = users st \<and> rooms (sendMessage sk now d st) = rooms st
     \<and> sockets (sendMessage sk now d st) = sockets st \<and> joined (sendMessage sk now d st) = joined st"
    by (simp add: sendMessage_def Let_def emit_def split: option.splits)
  have direct: "new_emissions st (sendMessage sk now d st) =
        [(ToRoom b, ''receiveMessage'', message sk now d),
         (ToSocket (sock_id sk), ''messageSent'',
          Obj [(''success'', Bool True), (''message'', message sk now d)])]"
    if ok: "registry_ok (users st)" and b: "map_of (users st) b = Some rb"
      and ne: "userId rb \<noteq> []" and r: "d_receiverId d = Some (userId rb)"
  proof -
    from registry_lookup [OF ok b]
    have "findUserByUserId (users st) (d_receiverId d) = Some rb" "socketId rb = b"
      by (simp_all add: r)
    then show ?thesis using ne r
      by (simp add: sendMessage_def Let_def emit_def new_emissions_def)
  qed
  have dropped: "new_emissions st (sendMessage sk now d st) =
        [(ToSocket (sock_id sk), ''messageSent'',
          Obj [(''success'', Bool True), (''message'', message sk now d)])]"
    if "truthy (d_receiverId d)" "\<forall>p\<in>set (users st). Some (userId (snd p)) \<noteq> d_receiverId d"
  proof -
    from that(2) have "findUserByUserId (users st) (d_receiverId d) = None"
      by (simp add: findUserByUserId_None_iff)
    then show ?thesis using that(1)
      by (simp add: sendMessage_def Let_def emit_def new_emissions_def)
  qed
  show ?thesis using frame direct dropped
    by (auto simp: received_def set_allSockets)
qed

text \<open>\<open>alice\<close> writes to \<open>bob\<close>, who is online, and to \<open>carol\<close>, who is not registered.\<close>

theorem sendMessage_direct_routing_witness:
  "registry_ok (users both_online) \<and>
   map_of (users both_online) ''s3'' = Some (new_session bob1 1) \<and>
   userId (new_session bob1 1) \<noteq> [] \<and>
   d_receiverId (hi_to ''bob'') = Some (userId (new_session bob1 1)) \<and>
   new_emissions both_online (sendMessage alice1 7 (hi_to ''bob'') both_online) =
     [(ToRoom ''s3'', ''receiveMessage'', message alice1 7 (hi_to ''bob'')),
      (ToSocket (sock_id alice1), ''messageSent'',
       Obj [(''success'', Bool True), (''message'', message alice1 7 (hi_to ''bob''))])] \<and>
   ''s3'' \<in> set (sockets both_online) \<and> (''s3'', ''s3'') \<in> set (joined both_online) \<and>
   received (sendMessage alice1 7 (hi_to ''bob'') both_online) ''s3'' ''receiveMessage''
     (new_emissions both_online (sendMessage alice1 7 (hi_to ''bob'') both_online)) = 1 \<and>
   sock_id alice1 \<in> set (sockets both_online) \<and>
   received (sendMessage alice1 7 (hi_to ''bob'') both_online) (sock_id alice1) ''messageSent''
     (new_emissions both_online (sendMessage alice1 7 (hi_to ''bob'') both_online)) = 1 \<and>
   truthy (d_receiverId (hi_to ''carol'')) \<and>
   d_receiverId (hi_to ''carol'') = Some ''carol'' \<and>
   map (userId \<circ> snd) (users both_online) = [''alice'', ''bob''] \<and>
   new_emissions both_online (sendMessage alice1 8 (hi_to ''carol'') both_online) =
     [(ToSocket (sock_id alice1), ''messageSent'',
       Obj [(''success'', Bool True), (''message'', message alice1 8 (hi_to ''carol''))])]"
proof -
  have ok: "registry_ok (users both_online)"
    by (simp add: both_online_def registry_ok_def)
  have b: "map_of (users both_online) ''s3'' = Some (new_session bob1 1)"
    by (simp add: both_online_def new_session_def bob1_def display_name_def)
  have ne: "userId (new_session bob1 1) \<noteq> []"
    and r: "d_receiverId (hi_to ''bob'') = Some (userId (new_session bob1 1))"
    by (simp_all add: new_session_def bob1_def hi_to_def)
  have live: "''s3'' \<in> set (sockets both_online)" "(''s3'', ''s3'') \<in> set (joined both_online)"
    "sock_id alice1 \<in> set (sockets both_online)"
    by (simp_all add: both_online_def alice1_def)
  have c: "truthy (d_receiverId (hi_to ''carol''))"
    "\<forall>p\<in>set (users both_online). Some (userId (snd p)) \<noteq> d_receiverId (hi_to ''carol'')"
    by (simp_all add: both_online_def hi_to_def)
  from sendMessage_direct_routing [of both_online "''s3''" "new_session bob1 1" "hi_to ''bob''" alice1 7]
    ok b ne r live
  have direct: "new_emissions both_online (sendMessage alice1 7 (hi_to ''bob'') both_online) =
     [(ToRoom ''s3'', ''receiveMessage'', message alice1 7 (hi_to ''bob'')),
      (ToSocket (sock_id alice1), ''messageSent'',
       Obj [(''success'', Bool True), (''message'', message alice1 7 (hi_to ''bob''))])] \<and>
     received (sendMessage alice1 7 (hi_to ''bob'') both_online) ''s3'' ''receiveMessage''
       (new_emissions both_online (sendMessage alice1 7 (hi_to ''bob'') both_online)) = 1 \<and>
     received (sendMessage alice1 7 (hi_to ''bob'') both_online) (sock_id alice1) ''messageSent''
       (new_emissions both_online (sendMessage alice1 7 (hi_to ''bob'') both_online)) = 1"
    by blast
  from sendMessage_direct_routing [of both_online "''s3''" "new_session bob1 1" "hi_to ''carol''" alice1 8] c
  have dropped: "new_emissions both_online (sendMessage alice1 8 (hi_to ''carol'') both_online) =
     [(ToSocket (sock_id alice1), ''messageSent'',
       Obj [(''success'', Bool True), (''message'', message alice1 8 (hi_to ''carol''))])]"
    by blast
  have c': "d_receiverId (hi_to ''carol'') = Some ''carol''"
    "map (userId \<circ> snd) (users both_online) = [''alice'', ''bob'']"
    by (simp_all add: both_online_def hi_to_def)
  from ok b ne r live c(1) c' direct dropped show ?thesis by blast
qed

text \<open>
  C3: for \<^verbatim>\<open>callUser\<close> without a (truthy) \<^verbatim>\<open>roomId\<close>. If \<^verbatim>\<open>to\<close> resolves to an
  entry whose socket is open, one \<^verbatim>\<open>incomingCall\<close> is addressed to that socket (and
  received by it when it is in its own group), followed by \<^verbatim>\<open>incomingCallDelivered\<close> to
  the sender; the registry is unchanged. If the entry's socket is not open, the only event
  is \<^verbatim>\<open>userUnavailable\<close> to the sender and the entry is deleted, so that the target no
  longer resolves. If \<^verbatim>\<open>to\<close> resolves to nothing, the state is unchanged and nothing is
  emitted.
\<close>

theorem callUser_direct:
  "\<not> truthy roomId \<longrightarrow>
   (findUserByUserId (users st) to = None \<longrightarrow> callUser sk to offer callType roomId st = st) \<and>
   (\<forall>toUser. findUserByUserId (users st) to = Some toUser \<and> socketId toUser \<in> set (sockets st) \<longrightarrow>
      new_emissions st (callUser sk to offer callType roomId st) =
        [(ToRoom (socketId toUser), ''incomingCall'',
          Obj [(''from'', Str (user_userId sk)), (''fromName'', opt (user_username sk)),
               (''offer'', offer), (''callType'', callType)]),
         (ToSocket (sock_id sk), ''incomingCallDelivered'',
          Obj [(''to'', opt to), (''socketId'', Str (socketId toUser))])] \<and>
      users (callUser sk to offer callType roomId st) = users st \<and>
      ((socketId toUser, socketId toUser) \<in> set (joined st) \<longrightarrow>
         received (callUser sk to offer callType roomId st) (socketId toUser) ''incomingCall''
           (new_emissions st (callUser sk to offer callType roomId st)) = 1)) \<and>
   (\<forall>toUser. findUserByUserId (users st) to = Some toUser \<and> socketId toUser \<notin> set (sockets st) \<longrightarrow>
      new_emissions st (callUser sk to offer callType roomId st) =
        [(ToSocket (sock_id sk), ''userUnavailable'', Obj [(''to'', opt to)])] \<and>
      users (callUser sk to offer callType roomId st) = AList.delete (socketId toUser) (users st) \<and>
      map_of (users (callUser sk to offer callType roomId st)) (socketId toUser) = None \<and>
      (registry_ok (users st) \<longrightarrow>
         findUserByUserId (users (callUser sk to offer callType roomId st)) to = None))"
proof -
  have frame: "sockets (callUser sk to offer callType roomId st) = sockets st \<and>
               joined (callUser sk to offer callType roomId st) = joined st"
    by (simp add: callUser_def emit_def split: option.splits)
  have gone: "map_of (AList.delete k (users st)) k = None" for k
    by (simp add: delete_conv')
  show ?thesis
    using frame gone
    by (auto simp: callUser_def emit_def new_emissions_def received_def set_allSockets
        registry_delete_found)
qed

text \<open>
  \<open>alice\<close> calls \<open>carol\<close> (not registered), \<open>bob\<close> while he is online, and \<open>bob\<close>
  after he has disconnected.
\<close>

theorem callUser_direct_witness:
  "\<not> truthy None \<and>
   findUserByUserId (users both_online) (Some ''carol'') = None \<and>
   callUser alice1 (Some ''carol'') (Str ''sdp'') (Str ''video'') None both_online = both_online \<and>
   findUserByUserId (users both_online) (Some ''bob'') = Some (new_session bob1 1) \<and>
   socketId (new_session bob1 1) \<in> set (sockets both_online) \<and>
   (socketId (new_session bob1 1), socketId (new_session bob1 1)) \<in> set (joined both_online) \<and>
   new_emissions both_online
     (callUser alice1 (Some ''bob'') (Str ''sdp'') (Str ''video'') None both_online) =
     [(ToRoom (socketId (new_session bob1 1)), ''incomingCall'',
       Obj [(''from'', Str (user_userId alice1)), (''fromName'', opt (user_username alice1)),
            (''offer'', Str ''sdp''), (''callType'', Str ''video'')]),
      (ToSocket (sock_id alice1), ''incomingCallDelivered'',
       Obj [(''to'', opt (Some ''bob'')), (''socketId'', Str (socketId (new_session bob1 1)))])] \<and>
   received (callUser alice1 (Some ''bob'') (Str ''sdp'') (Str ''video'') None both_online)
     (socketId (new_session bob1 1)) ''incomingCall''
     (new_emissions both_online
        (callUser alice1 (Some ''bob'') (Str ''sdp'') (Str ''video'') None both_online)) = 1 \<and>
   registry_ok (users bob_gone) \<and>
   findUserByUserId (users bob_gone) (Some ''bob'') =
     Some ((new_session bob1 1)\<lparr>status := Offline, lastActive := 2\<rparr>) \<and>
   socketId ((new_session bob1 1)\<lparr>status := Offline, lastActive := 2\<rparr>) \<notin> set (sockets bob_gone) \<and>
   new_emissions bob_gone
     (callUser alice1 (Some ''bob'') (Str ''sdp'') (Str ''video'') None bob_gone) =
     [(ToSocket (sock_id alice1), ''userUnavailable'', Obj [(''to'', opt (Some ''bob''))])] \<and>
   findUserByUserId
     (users (callUser alice1 (Some ''bob'') (Str ''sdp'') (Str ''video'') None bob_gone))
     (Some ''bob'') = None"
proof -
  let ?b = "new_session bob1 1"
  let ?b' = "(new_session bob1 1)\<lparr>status := Offline, lastActive := 2\<rparr>"
  have n: "\<not> truthy None" by simp
  have c: "findUserByUserId (users both_online) (Some ''carol'') = None"
    by (simp add: both_online_def findUserByUserId_def)
  have b: "findUserByUserId (users both_online) (Some ''bob'') = Some ?b"
    "socketId ?b \<in> set (sockets both_online)"
    "(socketId ?b, socketId ?b) \<in> set (joined both_online)"
    by (simp_all add: both_online_def findUserByUserId_def new_session_def bob1_def display_name_def)
  have g: "registry_ok (users bob_gone)"
    "findUserByUserId (users bob_gone) (Some ''bob'') = Some ?b'"
    "socketId ?b' \<notin> set (sockets bob_gone)"
    by (simp_all add: bob_gone_def registry_ok_def findUserByUserId_def new_session_def bob1_def
        display_name_def)
  from callUser_direct [of None both_online "Some ''carol''" alice1 "Str ''sdp''" "Str ''video''"] n c
  have none: "callUser alice1 (Some ''carol'') (Str ''sdp'') (Str ''video'') None both_online =
              both_online"
    by blast
  from callUser_direct [of None both_online "Some ''bob''" alice1 "Str ''sdp''" "Str ''video''"] n b
  have live: "new_emissions both_online
     (callUser alice1 (Some ''bob'') (Str ''sdp'') (Str ''video'') None both_online) =
     [(ToRoom (socketId ?b), ''incomingCall'',
       Obj [(''from'', Str (user_userId alice1)), (''fromName'', opt (user_username alice1)),
            (''offer'', Str ''sdp''), (''callType'', Str ''video'')]),
      (ToSocket (sock_id alice1), ''incomingCallDelivered'',
       Obj [(''to'', opt (Some ''bob'')), (''socketId'', Str (socketId ?b))])] \<and>
     received (callUser alice1 (Some ''bob'') (Str ''sdp'') (Str ''video'') None both_online)
       (socketId ?b) ''incomingCall''
       (new_emissions both_online
          (callUser alice1 (Some ''bob'') (Str ''sdp'') (Str ''video'') None both_online)) = 1"
    by blast
  from callUser_direct [of None bob_gone "Some ''bob''" alice1 "Str ''sdp''" "Str ''video''"] n g
  have stale: "new_emissions bob_gone
     (callUser alice1 (Some ''bob'') (Str ''sdp'') (Str ''video'') None bob_gone) =
     [(ToSocket (sock_id alice1), ''userUnavailable'', Obj [(''to'', opt (Some ''bob''))])] \<and>
     findUserByUserId
       (users (callUser alice1 (Some ''bob'') (Str ''sdp'') (Str ''video'') None bob_gone))
       (Some ''bob'') = None"
    by blast
  from n c b g none live stale show ?thesis by blast
qed

section \<open>Joining a group call\<close>

lemma participants_after_join:
  "participants (emit tg ev pl (socket_join me r st)) me r = participants st me r"
proof -
  have "filter (\<lambda>x. x \<noteq> me) (allSockets (emit tg ev pl (socket_join me r st)) r) =
        filter (\<lambda>x. x \<noteq> me) (allSockets st r)"
    by (auto simp: allSockets_def emit_def socket_join_def set_add_def intro: filter_cong)
  then show ?thesis by (simp add: participants_def emit_def socket_join_def)
qed

lemma set_participants:
  "set (participants st me r) =
     {(x, Some (userId s), Some (username s)) |x s.
        x \<in> set (sockets st) \<and> (x, r) \<in> set (joined st) \<and> x \<noteq> me \<and>
        map_of (users st) x = Some s \<and> userId s \<noteq> []}"
  by (auto simp: participants_def participant_def set_allSockets image_iff split: option.splits)

lemma fst_participants:
  "map fst (participants st me r) =
     filter (\<lambda>x. truthy (fst (snd (participant (users st) x))))
       (filter (\<lambda>x. x \<noteq> me) (allSockets st r))"
proof -
  have "map fst (filter (\<lambda>p. truthy (fst (snd p))) (map (participant (users st)) xs)) =
        filter (\<lambda>x. truthy (fst (snd (participant (users st) x)))) xs" for xs
    by (induction xs) (auto simp: participant_def split: option.splits)
  then show ?thesis by (simp add: participants_def)
qed

text \<open>
  C4, as the listener has it: \<^verbatim>\<open>joinGroupCall\<close> by the connection \<open>sk\<close> into the call
  room \<open>r\<close> emits exactly two events. The first is \<^verbatim>\<open>userJoinedGroupCall\<close> to the room
  except the joiner; it carries the joiner's socket id and, as \<^verbatim>\<open>userId\<close>, the payload's
  \<^verbatim>\<open>userId\<close> when the payload gives one and the joiner's authenticated user id
  otherwise. The second is \<^verbatim>\<open>existingParticipants\<close> to the joiner, whose list has one
  object with \<^verbatim>\<open>socketId\<close>, \<^verbatim>\<open>userId\<close> and \<^verbatim>\<open>username\<close> for each open socket that
  was in the transport's group \<open>r\<close> before the join, is not the joiner's socket, and has a
  registry entry with a non-empty user id, in the order of the group; members without such
  an entry are left out. The joiner's socket is never listed; the joiner's user id is not
  listed when the joiner is the registered connection of that user. Every prior member
  receives exactly one \<^verbatim>\<open>userJoinedGroupCall\<close>, the joiner none, and the joiner receives
  exactly one \<^verbatim>\<open>existingParticipants\<close>.
\<close>

theorem joinGroupCall_snapshot:
  "new_emissions st (joinGroupCall sk r j st) =
     [(ToRoomExcept (sock_id sk) r, ''userJoinedGroupCall'',
       Obj [(''userId'', Str (if truthy j then the_str j else user_userId sk)),
            (''username'', opt (user_username sk)),
            (''socketId'', Str (sock_id sk))]),
      (ToSocket (sock_id sk), ''existingParticipants'',
       Obj [(''callRoomId'', Str r),
            (''participants'',
             Arr (map (\<lambda>p. Obj [(''socketId'', Str (fst p)), (''userId'', opt (fst (snd p))),
                                (''username'', opt (snd (snd p)))])
                    (participants st (sock_id sk) r)))])] \<and>
   set (participants st (sock_id sk) r) =
     {(x, Some (userId s), Some (username s)) |x s.
        x \<in> set (sockets st) \<and> (x, r) \<in> set (joined st) \<and> x \<noteq> sock_id sk \<and>
        map_of (users st) x = Some s \<and> userId s \<noteq> []} \<and>
   map fst (participants st (sock_id sk) r) =
     filter (\<lambda>x. x \<noteq> sock_id sk \<and>
                 (case map_of (users st) x of None \<Rightarrow> False | Some s \<Rightarrow> userId s \<noteq> []))
       (allSockets st r) \<and>
   (distinct (joined st) \<longrightarrow> distinct (map fst (participants st (sock_id sk) r))) \<and>
   sock_id sk \<notin> fst ` set (participants st (sock_id sk) r) \<and>
   (registry_ok (users st) \<and> map_of (users st) (sock_id sk) = Some c \<and>
    userId c = user_userId sk \<longrightarrow>
      Some (user_userId sk) \<notin> (fst \<circ> snd) ` set (participants st (sock_id sk) r)) \<and>
   (\<forall>x. x \<in> set (sockets st) \<and> (x, r) \<in> set (joined st) \<and> x \<noteq> sock_id sk \<longrightarrow>
      received (joinGroupCall sk r j st) x ''userJoinedGroupCall''
        (new_emissions st (joinGroupCall sk r j st)) = 1) \<and>
   received (joinGroupCall sk r j st) (sock_id sk) ''userJoinedGroupCall''
     (new_emissions st (joinGroupCall sk r j st)) = 0 \<and>
   (sock_id sk \<in> set (sockets st) \<longrightarrow>
      received (joinGroupCall sk r j st) (sock_id sk) ''existingParticipants''
        (new_emissions st (joinGroupCall sk r j st)) = 1)"
proof -
  let ?st' = "joinGroupCall sk r j st"
  have js: "js_or j (user_userId sk) = (if truthy j then the_str j else user_userId sk)"
    by (cases j) auto
  have po: "participant_obj = (\<lambda>p. Obj [(''socketId'', Str (fst p)), (''userId'', opt (fst (snd p))),
                                (''username'', opt (snd (snd p)))])"
    by (rule ext) (simp add: participant_obj_def)
  have em: "new_emissions st ?st' =
     [(ToRoomExcept (sock_id sk) r, ''userJoinedGroupCall'',
       Obj [(''userId'', Str (if truthy j then the_str j else user_userId sk)),
            (''username'', opt (user_username sk)),
            (''socketId'', Str (sock_id sk))]),
      (ToSocket (sock_id sk), ''existingParticipants'',
       Obj [(''callRoomId'', Str r),
            (''participants'',
             Arr (map (\<lambda>p. Obj [(''socketId'', Str (fst p)), (''userId'', opt (fst (snd p))),
                                (''username'', opt (snd (snd p)))])
                    (participants st (sock_id sk) r)))])]"
    unfolding joinGroupCall_def Let_def participants_after_join js po
    by (simp add: new_emissions_def emit_def socket_join_def)
  have tr: "sockets ?st' = sockets st" "set (joined ?st') = insert (sock_id sk, r) (set (joined st))"
    by (auto simp: joinGroupCall_def Let_def emit_def socket_join_def set_add_def)
  have "(\<lambda>x. truthy (fst (snd (participant (users st) x)))) =
        (\<lambda>x. case map_of (users st) x of None \<Rightarrow> False | Some s \<Rightarrow> userId s \<noteq> [])"
    by (rule ext) (simp add: participant_def split: option.splits)
  then have order: "map fst (participants st (sock_id sk) r) =
     filter (\<lambda>x. x \<noteq> sock_id sk \<and>
                 (case map_of (users st) x of None \<Rightarrow> False | Some s \<Rightarrow> userId s \<noteq> []))
       (allSockets st r)"
    by (simp add: fst_participants conj_commute)
  have dist: "distinct (map fst (participants st (sock_id sk) r))" if "distinct (joined st)"
    using distinct_allSockets [OF that, of r] by (simp add: order)
  have self: "sock_id sk \<notin> fst ` set (participants st (sock_id sk) r)"
    by (auto simp: set_participants)
  have user: "Some (user_userId sk) \<notin> (fst \<circ> snd) ` set (participants st (sock_id sk) r)"
    if ok: "registry_ok (users st)" and c: "map_of (users st) (sock_id sk) = Some c"
      and cu: "userId c = user_userId sk"
  proof
    assume "Some (user_userId sk) \<in> (fst \<circ> snd) ` set (participants st (sock_id sk) r)"
    then obtain x s where x: "x \<noteq> sock_id sk" "map_of (users st) x = Some s"
        "userId s = user_userId sk"
      by (auto simp: set_participants)
    from x(2) have "(x, s) \<in> set (users st)" by (rule map_of_SomeD)
    moreover from x(3) cu have "userId (snd (x, s)) = userId c" by simp
    ultimately have "(x, s) = (sock_id sk, c)" by (rule registry_only_entry [OF ok c])
    with x(1) show False by simp
  qed
  have recv: "received ?st' x ''userJoinedGroupCall'' (new_emissions st ?st') = 1"
    if "x \<in> set (sockets st)" "(x, r) \<in> set (joined st)" "x \<noteq> sock_id sk" for x
    using that by (simp add: em received_def set_allSockets tr)
  have notself: "received ?st' (sock_id sk) ''userJoinedGroupCall'' (new_emissions st ?st') = 0"
    by (simp add: em received_def)
  have snap: "received ?st' (sock_id sk) ''existingParticipants'' (new_emissions st ?st') = 1"
    if "sock_id sk \<in> set (sockets st)"
    using that by (simp add: em received_def tr)
  from em set_participants [of st "sock_id sk" r] order dist self user recv notself snap
  show ?thesis by blast
qed

text \<open>
  \<open>carol\<close> joins \<open>call-1\<close>, which holds \<open>bob\<close>, \<open>alice\<close>'s second tab and her evicted
  first tab: she is told of \<open>bob\<close> and \<open>alice\<close> with their socket ids and names, and each
  of them is told of her once.
\<close>

theorem joinGroupCall_snapshot_witness:
  "\<exists>st. run [Connection alice1 0, Connection bob1 1, JoinGroupCall alice1 ''call-1'' None,
             JoinGroupCall bob1 ''call-1'' None, Connection alice2 3,
             JoinGroupCall alice2 ''call-1'' None, Connection carol1 4] initial = Inr st \<and>
     allSockets st ''call-1'' = [''s1'', ''s3'', ''s2''] \<and>
     map_of (users st) ''s1'' = None \<and>
     new_emissions st (joinGroupCall carol1 ''call-1'' None st) =
       [(ToRoomExcept ''s4'' ''call-1'', ''userJoinedGroupCall'',
         Obj [(''userId'', Str ''carol''), (''username'', Str ''Carol''), (''socketId'', Str ''s4'')]),
        (ToSocket ''s4'', ''existingParticipants'',
         Obj [(''callRoomId'', Str ''call-1''),
              (''participants'',
               Arr [Obj [(''socketId'', Str ''s3''), (''userId'', Str ''bob''),
                         (''username'', Str ''Unknown'')],
                    Obj [(''socketId'', Str ''s2''), (''userId'', Str ''alice''),
                         (''username'', Str ''Alice'')]])])] \<and>
     distinct (joined st) \<and> distinct (map fst (participants st (sock_id carol1) ''call-1'')) \<and>
     registry_ok (users st) \<and>
     map_of (users st) (sock_id carol1) = Some (new_session carol1 4) \<and>
     userId (new_session carol1 4) = user_userId carol1 \<and>
     Some (user_userId carol1) \<notin> (fst \<circ> snd) ` set (participants st (sock_id carol1) ''call-1'') \<and>
     ''s3'' \<in> set (sockets st) \<and> (''s3'', ''call-1'') \<in> set (joined st) \<and>
     ''s3'' \<noteq> sock_id carol1 \<and>
     received (joinGroupCall carol1 ''call-1'' None st) ''s3'' ''userJoinedGroupCall''
       (new_emissions st (joinGroupCall carol1 ''call-1'' None st)) = 1 \<and>
     ''s2'' \<in> set (sockets st) \<and> (''s2'', ''call-1'') \<in> set (joined st) \<and>
     ''s2'' \<noteq> sock_id carol1 \<and>
     received (joinGroupCall carol1 ''call-1'' None st) ''s2'' ''userJoinedGroupCall''
       (new_emissions st (joinGroupCall carol1 ''call-1'' None st)) = 1 \<and>
     sock_id carol1 \<in> set (sockets st) \<and>
     received (joinGroupCall carol1 ''call-1'' None st) (sock_id carol1) ''existingParticipants''
       (new_emissions st (joinGroupCall carol1 ''call-1'' None st)) = 1"
proof -
  obtain st where r: "run [Connection alice1 0, Connection bob1 1, JoinGroupCall alice1 ''call-1'' None,
             JoinGroupCall bob1 ''call-1'' None, Connection alice2 3,
             JoinGroupCall alice2 ''call-1'' None, Connection carol1 4] initial = Inr st"
    and us: "users st = [(''s3'', new_session bob1 1), (''s2'', new_session alice2 3),
                         (''s4'', new_session carol1 4)]"
    and so: "sockets st = [''s1'', ''s3'', ''s2'', ''s4'']"
    and jo: "joined st = [(''s1'', ''s1''), (''s3'', ''s3''), (''s1'', ''call-1''),
                          (''s3'', ''call-1''), (''s2'', ''s2''), (''s2'', ''call-1''),
                          (''s4'', ''s4'')]"
    by (simp add: example_defs transport_defs connection_defs joinGroupCall_def Let_def)
  have sid: "sock_id carol1 = ''s4''" "user_userId carol1 = ''carol''"
    "user_username carol1 = Some ''Carol''"
    by (simp_all add: carol1_def)
  have al: "allSockets st ''call-1'' = [''s1'', ''s3'', ''s2'']"
    by (simp add: allSockets_def so jo)
  have ev: "map_of (users st) ''s1'' = None"
    by (simp add: us)
  have p: "participants st (sock_id carol1) ''call-1'' =
       [(''s3'', Some ''bob'', Some ''Unknown''), (''s2'', Some ''alice'', Some ''Alice'')]"
    by (simp add: participants_def participant_def al us sid new_session_def bob1_def alice2_def
        display_name_def)
  have h: "distinct (joined st)" "registry_ok (users st)"
    "map_of (users st) (sock_id carol1) = Some (new_session carol1 4)"
    "userId (new_session carol1 4) = user_userId carol1"
    by (simp_all add: jo us sid registry_ok_def new_session_def bob1_def alice2_def carol1_def)
  have m: "''s3'' \<in> set (sockets st)" "(''s3'', ''call-1'') \<in> set (joined st)"
    "''s3'' \<noteq> sock_id carol1"
    "''s2'' \<in> set (sockets st)" "(''s2'', ''call-1'') \<in> set (joined st)"
    "''s2'' \<noteq> sock_id carol1" "sock_id carol1 \<in> set (sockets st)"
    by (simp_all add: so jo sid)
  note T = joinGroupCall_snapshot [of st carol1 "''call-1''" None "new_session carol1 4"]
  from T h have u: "Some (user_userId carol1) \<notin>
      (fst \<circ> snd) ` set (participants st (sock_id carol1) ''call-1'')"
    and di: "distinct (map fst (participants st (sock_id carol1) ''call-1''))"
    by blast+
  from T m have d: "received (joinGroupCall carol1 ''call-1'' None st) ''s3'' ''userJoinedGroupCall''
       (new_emissions st (joinGroupCall carol1 ''call-1'' None st)) = 1"
     "received (joinGroupCall carol1 ''call-1'' None st) ''s2'' ''userJoinedGroupCall''
       (new_emissions st (joinGroupCall carol1 ''call-1'' None st)) = 1"
     "received (joinGroupCall carol1 ''call-1'' None st) (sock_id carol1) ''existingParticipants''
       (new_emissions st (joinGroupCall carol1 ''call-1'' None st)) = 1"
    by blast+
  from T have "new_emissions st (joinGroupCall carol1 ''call-1'' None st) =
     [(ToRoomExcept (sock_id carol1) ''call-1'', ''userJoinedGroupCall'',
       Obj [(''userId'', Str (if truthy None then the_str None else user_userId carol1)),
            (''username'', opt (user_username carol1)),
            (''socketId'', Str (sock_id carol1))]),
      (ToSocket (sock_id carol1), ''existingParticipants'',
       Obj [(''callRoomId'', Str ''call-1''),
            (''participants'',
             Arr (map (\<lambda>p. Obj [(''socketId'', Str (fst p)), (''userId'', opt (fst (snd p))),
                                (''username'', opt (snd (snd p)))])
                    (participants st (sock_id carol1) ''call-1'')))])]"
    by blast
  then have e: "new_emissions st (joinGroupCall carol1 ''call-1'' None st) =
       [(ToRoomExcept ''s4'' ''call-1'', ''userJoinedGroupCall'',
         Obj [(''userId'', Str ''carol''), (''username'', Str ''Carol''), (''socketId'', Str ''s4'')]),
        (ToSocket ''s4'', ''existingParticipants'',
         Obj [(''callRoomId'', Str ''call-1''),
              (''participants'',
               Arr [Obj [(''socketId'', Str ''s3''), (''userId'', Str ''bob''),
                         (''username'', Str ''Unknown'')],
                    Obj [(''socketId'', Str ''s2''), (''userId'', Str ''alice''),
                         (''username'', Str ''Alice'')]])])]"
    by (simp add: p [unfolded sid] sid)
  from r al ev e h di u m d show ?thesis by blast
qed

text \<open>
  Two runs. In the first \<open>carol\<close> joins the room of \<open>alice\<close> and \<open>bob\<close> with a payload
  that names the user \<open>zed\<close>: the announcement they receive carries \<open>zed\<close>, not \<open>carol\<close>.
  In the second \<open>alice\<close>'s evicted first tab joins the room that holds her second tab: the
  list it receives names \<open>alice\<close> herself.
\<close>

theorem joinGroupCall_snapshot_counterexample:
  "map_sum id (emitted ''userJoinedGroupCall'')
     (run [Connection alice1 0, Connection bob1 1, JoinGroupCall alice1 ''call-1'' None,
           JoinGroupCall bob1 ''call-1'' None, Connection carol1 2,
           JoinGroupCall carol1 ''call-1'' (Some ''zed'')] initial) =
   Inr [(ToRoomExcept ''s1'' ''call-1'', ''userJoinedGroupCall'',
         Obj [(''userId'', Str ''alice''), (''username'', Str ''Alice''), (''socketId'', Str ''s1'')]),
        (ToRoomExcept ''s3'' ''call-1'', ''userJoinedGroupCall'',
         Obj [(''userId'', Str ''bob''), (''username'', Undefined), (''socketId'', Str ''s3'')]),
        (ToRoomExcept ''s4'' ''call-1'', ''userJoinedGroupCall'',
         Obj [(''userId'', Str ''zed''), (''username'', Str ''Carol''), (''socketId'', Str ''s4'')])] \<and>
   map_sum id (emitted ''existingParticipants'')
     (run [Connection alice1 0, Connection alice2 1, JoinGroupCall alice2 ''call-1'' None,
           JoinGroupCall alice1 ''call-1'' None] initial) =
   Inr [(ToSocket ''s2'', ''existingParticipants'',
         Obj [(''callRoomId'', Str ''call-1''), (''participants'', Arr [])]),
        (ToSocket ''s1'', ''existingParticipants'',
         Obj [(''callRoomId'', Str ''call-1''),
              (''participants'',
               Arr [Obj [(''socketId'', Str ''s2''), (''userId'', Str ''alice''),
                         (''username'', Str ''Alice'')]])])]"
  by (simp add: example_defs transport_defs connection_defs joinGroupCall_def Let_def
      participants_def participant_def participant_obj_def emitted_def)

section \<open>Group calls and the rooms object\<close>

text \<open>
  C5, as the listener has it: \<^verbatim>\<open>joinGroupCall\<close> adds the joiner's socket to the
  transport's group for \<^verbatim>\<open>callRoomId\<close> and does nothing else to the shared state.
  The \<^verbatim>\<open>rooms\<close> object and the registry are as they were before the event: no
  listener keeps a call-room namespace in \<^verbatim>\<open>rooms\<close>.
\<close>

theorem joinGroupCall_joins_transport_only:
  "(sock_id sk, callRoomId) \<in> set (joined (joinGroupCall sk callRoomId joinUserId st)) \<and>
   rooms (joinGroupCall sk callRoomId joinUserId st) = rooms st \<and>
   users (joinGroupCall sk callRoomId joinUserId st) = users st"
  by (simp add: joinGroupCall_def transport_defs Let_def)

text \<open>
  After \<open>carol\<close> connects and joins the call room \<open>call-1\<close>, \<^verbatim>\<open>rooms\<close> is still
  empty: there is no member set for \<open>call-1\<close> that could contain her user id.
\<close>

theorem joinGroupCall_rooms_counterexample:
  "map_sum id rooms (run [Connection carol1 0, JoinGroupCall carol1 ''call-1'' None] initial) = Inr []"
  by (simp add: example_defs transport_defs connection_defs joinGroupCall_def)

section \<open>After a disconnect\<close>

lemma step_keeps_entry:
  assumes ok: "registry_ok (users st1)" and ent: "map_of (users st1) k = Some s1"
    and st: "step e st1 = Inr st2"
    and ne: "\<not> evicts k (userId s1) e" and no: "\<not> own_event k e"
  shows "map_of (users st2) k = Some s1"
proof (cases e)
  case (Connection sk now)
  from ok have d: "distinct (map fst (users st1))" by (simp add: registry_ok_def)
  have u0: "users (transport_open (sock_id sk) st1) = users st1" by (simp add: transport_defs)
  from d u0 have d0: "distinct (map fst (users (transport_open (sock_id sk) st1)))" by simp
  from st Connection connection_result [OF d0]
  have "users st2 = AList.update (sock_id sk) (new_session sk now)
                      (evict (user_userId sk) (sock_id sk) (users st1))"
    by (auto simp: u0 emit_def)
  moreover from ne Connection have "user_userId sk \<noteq> userId s1" "sock_id sk \<noteq> k" by auto
  ultimately show ?thesis using ent by (simp add: update_conv' map_of_evict [OF d])
next
  case (UpdateLanguagePreference sk data)
  with st ent no show ?thesis
    by (auto simp: updateLanguagePreference_def emit_def update_conv' split: option.splits if_splits)
next
  case (JoinRoom sk r)
  with st ent show ?thesis
    by (auto simp: joinRoom_def Let_def socket_join_def emit_def split: property.splits)
next
  case (LeaveRoom sk r)
  with st ent show ?thesis
    by (auto simp: leaveRoom_def Let_def socket_leave_def emit_def split: property.splits)
next
  case (SendMessage sk now d)
  with st ent show ?thesis
    by (auto simp: sendMessage_def Let_def emit_def split: option.splits)
next
  case (Typing sk receiverId roomId isTyping)
  with st ent show ?thesis
    by (auto simp: typing_def Let_def emit_def split: option.splits)
next
  case (CallUser sk to offer callType roomId)
  show ?thesis
  proof (cases "truthy roomId")
    case True
    with st ent CallUser show ?thesis by (auto simp: callUser_def emit_def)
  next
    case False
    with ne CallUser have to: "to \<noteq> Some (userId s1)" by simp
    show ?thesis
    proof (cases "findUserByUserId (users st1) to")
      case None
      with st ent CallUser False show ?thesis by (auto simp: callUser_def)
    next
      case (Some t)
      from findUserByUserId_SomeD [OF Some] to have tu: "userId t \<noteq> userId s1" by auto
      from findUserByUserId_SomeD [OF Some] obtain x where x: "(x, t) \<in> set (users st1)" by auto
      with ok have xs: "socketId t = x" by (auto simp: registry_ok_def)
      from ok have d: "distinct (map fst (users st1))" by (simp add: registry_ok_def)
      from d x have "map_of (users st1) x = Some t" by (rule map_of_is_SomeI)
      with ent tu have "x \<noteq> k" by auto
      with xs st ent CallUser False Some show ?thesis
        by (auto simp: callUser_def emit_def delete_conv' split: if_splits)
    qed
  qed
next
  case (AnswerCall sk to answer roomId)
  with st ent show ?thesis
    by (auto simp: answerCall_def emit_def split: option.splits)
next
  case (IceCandidate sk to candidate roomId)
  with st ent show ?thesis
    by (auto simp: iceCandidate_def emit_def split: option.splits)
next
  case (IncomingCallAck sk frm callSessionId)
  with st ent show ?thesis
    by (auto simp: incomingCallAck_def emit_def split: option.splits)
next
  case (EndCall sk to roomId)
  with st ent show ?thesis
    by (auto simp: endCall_def emit_def split: option.splits)
next
  case (JoinGroupCall sk callRoomId joinUserId)
  with st ent show ?thesis
    by (auto simp: joinGroupCall_def Let_def socket_join_def emit_def)
next
  case (LeaveGroupCall sk callRoomId)
  with st ent show ?thesis
    by (auto simp: leaveGroupCall_def socket_leave_def emit_def)
next
  case (GroupCallOffer sk t offer callRoomId)
  with st ent show ?thesis by (auto simp: groupCallOffer_def emit_def)
next
  case (GroupCallAnswer sk t answer callRoomId)
  with st ent show ?thesis by (auto simp: groupCallAnswer_def emit_def)
next
  case (GroupCallIceCandidate sk t candidate callRoomId)
  with st ent show ?thesis by (auto simp: groupCallIceCandidate_def emit_def)
next
  case (GroupCallSpeaking sk callRoomId isSpeaking)
  with st ent show ?thesis by (auto simp: groupCallSpeaking_def emit_def)
next
  case (Disconnect sk now)
  with st ent no show ?thesis
    by (auto simp: disconnect_def Let_def emit_def transport_close_def update_conv'
        split: option.splits)
next
  case (Timeout x)
  with st ent ne show ?thesis
    by (auto simp: fire_timer_def timeout_callback_def delete_conv' split: option.splits if_splits)
next
  case Sweep
  with ne show ?thesis by simp
qed

lemma sweep_loop_filter:
  "sweep_loop live ks us = filter (\<lambda>p. fst p \<in> set live \<or> fst p \<notin> set ks) us"
proof (induction ks arbitrary: us)
  case Nil
  then show ?case by simp
next
  case (Cons k ks)
  show ?case
  proof (cases "k \<in> set live")
    case True
    have "filter (\<lambda>p. fst p \<in> set live \<or> fst p \<notin> set ks) us =
          filter (\<lambda>p. fst p \<in> set live \<or> fst p \<notin> set (k # ks)) us"
      using True by (intro filter_cong) auto
    with True Cons.IH [of us] show ?thesis by simp
  next
    case False
    have "filter (\<lambda>p. fst p \<in> set live \<or> fst p \<notin> set ks) (AList.delete k us) =
          filter (\<lambda>p. fst p \<in> set live \<or> fst p \<notin> set (k # ks)) us"
      unfolding AList.delete_eq filter_filter
      using False by (intro filter_cong) (auto simp: case_prod_beta)
    with False Cons.IH [of "AList.delete k us"] show ?thesis by simp
  qed
qed

lemma users_sweep: "users (sweep st) = filter (\<lambda>p. fst p \<in> set (sockets st)) (users st)"
proof -
  have "filter (\<lambda>p. fst p \<in> set (sockets st) \<or> fst p \<notin> set (map fst (users st))) (users st) =
        filter (\<lambda>p. fst p \<in> set (sockets st)) (users st)"
    by (intro filter_cong) auto
  then show ?thesis by (simp add: sweep_def sweep_loop_filter)
qed

lemma remove_from_rooms_map_of:
  assumes "distinct ks"
  shows "map_of (remove_from_rooms u ks rs) r =
     (if r \<in> set ks then
        (case map_of rs r of
           None \<Rightarrow> None
         | Some ms \<Rightarrow>
             if u \<in> set ms then (if removeAll u ms = [] then None else Some (removeAll u ms))
             else Some ms)
      else map_of rs r)"
  using assms
proof (induction ks arbitrary: rs)
  case Nil
  then show ?case by simp
next
  case (Cons k ks)
  from Cons.prems have k: "k \<notin> set ks" and d: "distinct ks" by simp_all
  note IH = Cons.IH [OF d]
  show ?case
  proof (cases "map_of rs k")
    case None
    with IH [of rs] k show ?thesis by auto
  next
    case (Some ms)
    show ?thesis
    proof (cases "u \<in> set ms")
      case False
      with Some IH [of rs] k show ?thesis by auto
    next
      case True
      show ?thesis
      proof (cases "removeAll u ms = []")
        case e: True
        with Some True IH [of "AList.delete k rs"] k show ?thesis
          by (auto simp: delete_conv')
      next
        case e: False
        with Some True IH [of "AList.update k (removeAll u ms) rs"] k show ?thesis
          by (auto simp: update_conv')
      qed
    qed
  qed
qed

lemma distinct_remove_from_rooms:
  "distinct (map fst rs) \<Longrightarrow> distinct (map fst (remove_from_rooms u ks rs))"
proof (induction ks arbitrary: rs)
  case Nil
  then show ?case by simp
next
  case (Cons k ks)
  then show ?case
    by (auto simp: Let_def distinct_update distinct_delete split: option.splits)
qed

text \<open>
  C6, as the listeners have it. When a registered connection \<open>A\<close> disconnects, its user id
  is removed from every room of \<^verbatim>\<open>rooms\<close> and a room left empty is deleted; one
  \<^verbatim>\<open>userStatusChange\<close> with status \<^verbatim>\<open>offline\<close> is broadcast; a timer due five minutes
  later is scheduled; and the lookup by user id returns \<open>A\<close>'s session with status
  \<^verbatim>\<open>offline\<close> and the new \<^verbatim>\<open>lastActive\<close>. The entry then stays as it is across every
  event of other connections except four: the timer firing (which deletes it when it is
  still offline, and does nothing to an online entry), an admission of the same user
  (which evicts it), the periodic sweep, and a direct \<^verbatim>\<open>callUser\<close> to that user. The
  last two delete it whenever its channel is closed, which it is after a disconnect, so
  the entry can disappear before the timer fires.
\<close>

theorem disconnect_keeps_offline_session:
  "(registry_ok (users st) \<and> distinct (map fst (rooms st)) \<and>
    map_of (users st) (sock_id sk) = Some s \<and> userId s = user_userId sk \<longrightarrow>
      (\<forall>r. map_of (rooms (disconnect sk now st)) r =
         (case map_of (rooms st) r of
            None \<Rightarrow> None
          | Some ms \<Rightarrow>
              if user_userId sk \<in> set ms then
                (if removeAll (user_userId sk) ms = [] then None
                 else Some (removeAll (user_userId sk) ms))
              else Some ms)) \<and>
      (\<forall>p\<in>set (rooms (disconnect sk now st)). user_userId sk \<notin> set (snd p)) \<and>
      new_emissions st (disconnect sk now st) =
        [(Broadcast (sock_id sk), ''userStatusChange'',
          Obj [(''userId'', Str (user_userId sk)), (''status'', Str ''offline'')])] \<and>
      timers (disconnect sk now st) = timers st @ [(sock_id sk, now + 300000)] \<and>
      map_of (users (disconnect sk now st)) (sock_id sk) =
        Some (s\<lparr>status := Offline, lastActive := now\<rparr>) \<and>
      findUserByUserId (users (disconnect sk now st)) (Some (user_userId sk)) =
        Some (s\<lparr>status := Offline, lastActive := now\<rparr>)) \<and>
   (registry_ok (users st1) \<and> map_of (users st1) k = Some s1 \<and> step e st1 = Inr st2 \<and>
    \<not> evicts k (userId s1) e \<and> \<not> own_event k e \<longrightarrow>
      map_of (users st2) k = Some s1 \<and>
      findUserByUserId (users st2) (Some (userId s1)) = Some s1) \<and>
   (registry_ok (users st1) \<and> map_of (users st1) k = Some s1 \<and> status s1 = Offline \<longrightarrow>
      map_of (users (timeout_callback k st1)) k = None \<and>
      findUserByUserId (users (timeout_callback k st1)) (Some (userId s1)) = None) \<and>
   (map_of (users st1) k = Some s1 \<and> status s1 = Online \<longrightarrow> timeout_callback k st1 = st1) \<and>
   (registry_ok (users st1) \<and> map_of (users st1) k = Some s1 \<and> k \<notin> set (sockets st1) \<longrightarrow>
      map_of (users (sweep st1)) k = None \<and>
      findUserByUserId (users (sweep st1)) (Some (userId s1)) = None \<and>
      map_of (users (callUser sk' (Some (userId s1)) offer callType None st1)) k = None \<and>
      findUserByUserId (users (callUser sk' (Some (userId s1)) offer callType None st1))
        (Some (userId s1)) = None) \<and>
   (registry_ok (users st1) \<and> map_of (users st1) k = Some s1 \<and>
    user_userId sk' = userId s1 \<and> sock_id sk' \<noteq> k \<and>
    step (Connection sk' now') st1 = Inr st2 \<longrightarrow>
      map_of (users st2) k = None \<and>
      map_of (users st2) (sock_id sk') = Some (new_session sk' now'))"
proof -
  let ?u = "user_userId sk"
  let ?st' = "disconnect sk now st"
  let ?s' = "s\<lparr>status := Offline, lastActive := now\<rparr>"
  have A: "(\<forall>r. map_of (rooms ?st') r =
         (case map_of (rooms st) r of
            None \<Rightarrow> None
          | Some ms \<Rightarrow>
              if ?u \<in> set ms then
                (if removeAll ?u ms = [] then None else Some (removeAll ?u ms))
              else Some ms)) \<and>
      (\<forall>p\<in>set (rooms ?st'). ?u \<notin> set (snd p)) \<and>
      new_emissions st ?st' =
        [(Broadcast (sock_id sk), ''userStatusChange'',
          Obj [(''userId'', Str ?u), (''status'', Str ''offline'')])] \<and>
      timers ?st' = timers st @ [(sock_id sk, now + 300000)] \<and>
      map_of (users ?st') (sock_id sk) = Some ?s' \<and>
      findUserByUserId (users ?st') (Some ?u) = Some ?s'"
    if ok: "registry_ok (users st)" and dr: "distinct (map fst (rooms st))"
      and ent: "map_of (users st) (sock_id sk) = Some s" and su: "userId s = ?u"
  proof -
    have rs: "rooms ?st' = remove_from_rooms ?u (map fst (rooms st)) (rooms st)"
      and us: "users ?st' = AList.update (sock_id sk) ?s' (users st)"
      and em: "new_emissions st ?st' =
        [(Broadcast (sock_id sk), ''userStatusChange'',
          Obj [(''userId'', Str ?u), (''status'', Str ''offline'')])]"
      and ti: "timers ?st' = timers st @ [(sock_id sk, now + 300000)]"
      using ent by (simp_all add: disconnect_def Let_def emit_def new_emissions_def)
    have m: "map_of (rooms ?st') r =
         (case map_of (rooms st) r of
            None \<Rightarrow> None
          | Some ms \<Rightarrow>
              if ?u \<in> set ms then
                (if removeAll ?u ms = [] then None else Some (removeAll ?u ms))
              else Some ms)" for r
    proof (cases "r \<in> set (map fst (rooms st))")
      case True
      with remove_from_rooms_map_of [OF dr, of ?u "rooms st" r] show ?thesis by (simp add: rs)
    next
      case False
      then have "map_of (rooms st) r = None" by (simp add: map_of_eq_None_iff)
      with False remove_from_rooms_map_of [OF dr, of ?u "rooms st" r] show ?thesis
        by (simp add: rs)
    qed
    have gone: "\<forall>p\<in>set (rooms ?st'). ?u \<notin> set (snd p)"
    proof
      fix p assume p: "p \<in> set (rooms ?st')"
      have "distinct (map fst (rooms ?st'))"
        unfolding rs using dr by (rule distinct_remove_from_rooms)
      moreover from p have "(fst p, snd p) \<in> set (rooms ?st')" by simp
      ultimately have "map_of (rooms ?st') (fst p) = Some (snd p)" by (rule map_of_is_SomeI)
      with m [of "fst p"] show "?u \<notin> set (snd p)"
        by (auto split: option.splits if_splits)
    qed
    have ok': "registry_ok (users ?st')"
      unfolding us using ok ent by (rule registry_ok_modify) simp_all
    have look: "map_of (users ?st') (sock_id sk) = Some ?s'" by (simp add: us update_conv')
    from registry_lookup(1) [OF ok' look] su
    have "findUserByUserId (users ?st') (Some ?u) = Some ?s'" by simp
    with m gone em ti look show ?thesis by blast
  qed
  have B: "map_of (users st2) k = Some s1 \<and>
           findUserByUserId (users st2) (Some (userId s1)) = Some s1"
    if ok: "registry_ok (users st1)" and ent: "map_of (users st1) k = Some s1"
      and st: "step e st1 = Inr st2" and ne: "\<not> evicts k (userId s1) e" "\<not> own_event k e"
  proof -
    from step_keeps_entry [OF ok ent st ne] have e2: "map_of (users st2) k = Some s1" .
    from step_registry_ok [OF ok st] have "registry_ok (users st2)" .
    from registry_lookup(1) [OF this e2] e2 show ?thesis by simp
  qed
  have C: "map_of (users (timeout_callback k st1)) k = None \<and>
           findUserByUserId (users (timeout_callback k st1)) (Some (userId s1)) = None"
    if ok: "registry_ok (users st1)" and ent: "map_of (users st1) k = Some s1"
      and off: "status s1 = Offline"
  proof -
    have us: "users (timeout_callback k st1) = AList.delete k (users st1)"
      using ent off by (simp add: timeout_callback_def)
    from registry_lookup [OF ok ent]
    have "findUserByUserId (users st1) (Some (userId s1)) = Some s1" "socketId s1 = k" .
    with registry_delete_found [OF ok, of "Some (userId s1)" s1]
    have "findUserByUserId (AList.delete k (users st1)) (Some (userId s1)) = None" by simp
    then show ?thesis by (simp add: us delete_conv')
  qed
  have C': "timeout_callback k st1 = st1"
    if "map_of (users st1) k = Some s1" "status s1 = Online"
    using that by (simp add: timeout_callback_def)
  have D: "map_of (users (sweep st1)) k = None \<and>
      findUserByUserId (users (sweep st1)) (Some (userId s1)) = None \<and>
      map_of (users (callUser sk' (Some (userId s1)) offer callType None st1)) k = None \<and>
      findUserByUserId (users (callUser sk' (Some (userId s1)) offer callType None st1))
        (Some (userId s1)) = None"
    if ok: "registry_ok (users st1)" and ent: "map_of (users st1) k = Some s1"
      and dead: "k \<notin> set (sockets st1)"
  proof -
    from registry_lookup [OF ok ent]
    have f: "findUserByUserId (users st1) (Some (userId s1)) = Some s1" and sk: "socketId s1 = k" .
    have "k \<notin> fst ` set (users (sweep st1))" using dead by (auto simp: users_sweep)
    then have s1: "map_of (users (sweep st1)) k = None" by (simp add: map_of_eq_None_iff)
    have "\<forall>p\<in>set (users (sweep st1)). Some (userId (snd p)) \<noteq> Some (userId s1)"
    proof
      fix p assume p: "p \<in> set (users (sweep st1))"
      then have pm: "p \<in> set (users st1)" and pl: "fst p \<in> set (sockets st1)"
        by (auto simp: users_sweep)
      show "Some (userId (snd p)) \<noteq> Some (userId s1)"
      proof
        assume "Some (userId (snd p)) = Some (userId s1)"
        then have "userId (snd p) = userId s1" by simp
        from registry_only_entry [OF ok ent pm this] pl dead show False by simp
      qed
    qed
    then have s2: "findUserByUserId (users (sweep st1)) (Some (userId s1)) = None"
      by (simp only: findUserByUserId_None_iff)
    have cu: "users (callUser sk' (Some (userId s1)) offer callType None st1) =
              AList.delete k (users st1)"
      using f sk dead by (simp add: callUser_def emit_def)
    from registry_delete_found [OF ok f] sk
    have "findUserByUserId (AList.delete k (users st1)) (Some (userId s1)) = None" by simp
    with s1 s2 cu show ?thesis by (simp add: delete_conv')
  qed
  have E: "map_of (users st2) k = None \<and>
           map_of (users st2) (sock_id sk') = Some (new_session sk' now')"
    if ok: "registry_ok (users st1)" and ent: "map_of (users st1) k = Some s1"
      and same: "user_userId sk' = userId s1" and other: "sock_id sk' \<noteq> k"
      and st: "step (Connection sk' now') st1 = Inr st2"
  proof -
    from ok have d: "distinct (map fst (users st1))" by (simp add: registry_ok_def)
    have u0: "users (transport_open (sock_id sk') st1) = users st1" by (simp add: transport_defs)
    from d u0 have d0: "distinct (map fst (users (transport_open (sock_id sk') st1)))" by simp
    from st connection_result [OF d0]
    have "users st2 = AList.update (sock_id sk') (new_session sk' now')
                        (evict (user_userId sk') (sock_id sk') (users st1))"
      by (auto simp: u0 emit_def)
    then show ?thesis using ent same other
      by (simp add: update_conv' map_of_evict [OF d])
  qed
  from A B C C' D E show ?thesis by blast
qed

text \<open>
  \<open>bob\<close> disconnects while in \<open>lobby\<close> with \<open>alice\<close> and alone in \<open>den\<close>. Afterwards
  a message of \<open>alice\<close> leaves his offline entry in place; the timer, the sweep, a call
  to him and his own second connection each remove it.
\<close>

theorem disconnect_keeps_offline_session_witness:
  "\<exists>st0 st2.
     run [Connection alice1 0, Connection bob1 1, JoinRoom alice1 ''lobby'',
          JoinRoom bob1 ''lobby'', JoinRoom bob1 ''den''] initial = Inr st0 \<and>
     registry_ok (users (transport_close (sock_id bob1) st0)) \<and>
     distinct (map fst (rooms (transport_close (sock_id bob1) st0))) \<and>
     map_of (users (transport_close (sock_id bob1) st0)) (sock_id bob1) = Some (new_session bob1 1) \<and>
     userId (new_session bob1 1) = user_userId bob1 \<and>
     map_of (rooms (transport_close (sock_id bob1) st0)) ''lobby'' = Some [''alice'', ''bob''] \<and>
     map_of (rooms (transport_close (sock_id bob1) st0)) ''den'' = Some [''bob''] \<and>
     map_of (rooms (disconnect bob1 9 (transport_close (sock_id bob1) st0))) ''lobby'' =
       Some [''alice''] \<and>
     map_of (rooms (disconnect bob1 9 (transport_close (sock_id bob1) st0))) ''den'' = None \<and>
     new_emissions (transport_close (sock_id bob1) st0)
       (disconnect bob1 9 (transport_close (sock_id bob1) st0)) =
       [(Broadcast (sock_id bob1), ''userStatusChange'',
         Obj [(''userId'', Str (user_userId bob1)), (''status'', Str ''offline'')])] \<and>
     timers (disconnect bob1 9 (transport_close (sock_id bob1) st0)) =
       timers (transport_close (sock_id bob1) st0) @ [(sock_id bob1, 9 + 300000)] \<and>
     findUserByUserId (users (disconnect bob1 9 (transport_close (sock_id bob1) st0)))
       (Some (user_userId bob1)) =
       Some ((new_session bob1 1)\<lparr>status := Offline, lastActive := 9\<rparr>) \<and>
     registry_ok (users bob_gone) \<and>
     map_of (users bob_gone) ''s3'' = Some ((new_session bob1 1)\<lparr>status := Offline, lastActive := 2\<rparr>) \<and>
     status ((new_session bob1 1)\<lparr>status := Offline, lastActive := 2\<rparr>) = Offline \<and>
     ''s3'' \<notin> set (sockets bob_gone) \<and>
     step (SendMessage alice1 5 (hi_to ''bob'')) bob_gone =
       Inr (sendMessage alice1 5 (hi_to ''bob'') bob_gone) \<and>
     \<not> evicts ''s3'' ''bob'' (SendMessage alice1 5 (hi_to ''bob'')) \<and>
     \<not> own_event ''s3'' (SendMessage alice1 5 (hi_to ''bob'')) \<and>
     findUserByUserId (users (sendMessage alice1 5 (hi_to ''bob'') bob_gone)) (Some ''bob'') =
       Some ((new_session bob1 1)\<lparr>status := Offline, lastActive := 2\<rparr>) \<and>
     findUserByUserId (users (timeout_callback ''s3'' bob_gone)) (Some ''bob'') = None \<and>
     map_of (users both_online) ''s3'' = Some (new_session bob1 1) \<and>
     status (new_session bob1 1) = Online \<and>
     timeout_callback ''s3'' both_online = both_online \<and>
     findUserByUserId (users (sweep bob_gone)) (Some ''bob'') = None \<and>
     findUserByUserId
       (users (callUser alice1 (Some ''bob'') (Str ''sdp'') (Str ''video'') None bob_gone))
       (Some ''bob'') = None \<and>
     user_userId bob2 = ''bob'' \<and> sock_id bob2 \<noteq> ''s3'' \<and>
     step (Connection bob2 7) bob_gone = Inr st2 \<and>
     map_of (users st2) ''s3'' = None \<and>
     map_of (users st2) (sock_id bob2) = Some (new_session bob2 7)"
proof -
  let ?b = "new_session bob1 1"
  let ?b' = "(new_session bob1 1)\<lparr>status := Offline, lastActive := 2\<rparr>"
  obtain st0 where r: "run [Connection alice1 0, Connection bob1 1, JoinRoom alice1 ''lobby'',
          JoinRoom bob1 ''lobby'', JoinRoom bob1 ''den''] initial = Inr st0"
    and us: "users st0 = [(''s1'', new_session alice1 0), (''s3'', new_session bob1 1)]"
    and rs: "rooms st0 = [(''lobby'', [''alice'', ''bob'']), (''den'', [''bob''])]"
    by (simp add: example_defs transport_defs connection_defs joinRoom_def getprop_def
        object_prototype_keys_def Let_def)
  let ?st = "transport_close (sock_id bob1) st0"
  have tc: "users (transport_close x st0) = users st0"
    "rooms (transport_close x st0) = rooms st0" for x
    by (simp_all add: transport_close_def)
  have bu: "userId ?b = ''bob''" "userId ?b' = ''bob''" "status ?b' = Offline"
    "status ?b = Online" "user_userId bob1 = ''bob''" "sock_id bob1 = ''s3''"
    "user_userId bob2 = ''bob''" "sock_id bob2 \<noteq> ''s3''"
    by (simp_all add: new_session_def bob1_def bob2_def)
  have h: "registry_ok (users ?st)" "distinct (map fst (rooms ?st))"
    "map_of (users ?st) (sock_id bob1) = Some ?b" "userId ?b = user_userId bob1"
    "map_of (rooms ?st) ''lobby'' = Some [''alice'', ''bob'']"
    "map_of (rooms ?st) ''den'' = Some [''bob'']"
    by (simp_all add: tc us rs registry_ok_def new_session_def alice1_def bob1_def)
  note A = disconnect_keeps_offline_session [of ?st bob1 ?b 9]
  from A h have a1: "\<forall>r. map_of (rooms (disconnect bob1 9 ?st)) r =
         (case map_of (rooms ?st) r of
            None \<Rightarrow> None
          | Some ms \<Rightarrow>
              if user_userId bob1 \<in> set ms then
                (if removeAll (user_userId bob1) ms = [] then None
                 else Some (removeAll (user_userId bob1) ms))
              else Some ms)"
    by blast
  from a1 h(5) have l: "map_of (rooms (disconnect bob1 9 ?st)) ''lobby'' = Some [''alice'']"
    by (simp add: bu)
  from a1 h(6) have d: "map_of (rooms (disconnect bob1 9 ?st)) ''den'' = None"
    by (simp add: bu)
  from A h have a2: "new_emissions ?st (disconnect bob1 9 ?st) =
       [(Broadcast (sock_id bob1), ''userStatusChange'',
         Obj [(''userId'', Str (user_userId bob1)), (''status'', Str ''offline'')])]"
     "timers (disconnect bob1 9 ?st) = timers ?st @ [(sock_id bob1, 9 + 300000)]"
     "findUserByUserId (users (disconnect bob1 9 ?st)) (Some (user_userId bob1)) =
       Some (?b\<lparr>status := Offline, lastActive := 9\<rparr>)"
    by blast+
  have g: "registry_ok (users bob_gone)" "map_of (users bob_gone) ''s3'' = Some ?b'"
    "''s3'' \<notin> set (sockets bob_gone)"
    by (simp_all add: bob_gone_def registry_ok_def new_session_def bob1_def display_name_def)
  have o: "map_of (users both_online) ''s3'' = Some ?b"
    by (simp add: both_online_def new_session_def bob1_def display_name_def)
  have e: "step (SendMessage alice1 5 (hi_to ''bob'')) bob_gone =
       Inr (sendMessage alice1 5 (hi_to ''bob'') bob_gone)"
    "\<not> evicts ''s3'' ''bob'' (SendMessage alice1 5 (hi_to ''bob''))"
    "\<not> own_event ''s3'' (SendMessage alice1 5 (hi_to ''bob''))"
    by simp_all
  from disconnect_keeps_offline_session
         [of _ _ _ _ bob_gone "''s3''" ?b' "SendMessage alice1 5 (hi_to ''bob'')"
             "sendMessage alice1 5 (hi_to ''bob'') bob_gone" alice1 "Str ''sdp''" "Str ''video''"]
       g e bu
  have b1: "findUserByUserId (users (sendMessage alice1 5 (hi_to ''bob'') bob_gone)) (Some ''bob'') =
       Some ?b'"
    and c1: "findUserByUserId (users (timeout_callback ''s3'' bob_gone)) (Some ''bob'') = None"
    and d1: "findUserByUserId (users (sweep bob_gone)) (Some ''bob'') = None"
    and d2: "findUserByUserId
       (users (callUser alice1 (Some ''bob'') (Str ''sdp'') (Str ''video'') None bob_gone))
       (Some ''bob'') = None"
    by metis+
  from disconnect_keeps_offline_session [of _ _ _ _ both_online "''s3''" ?b] o bu
  have c2: "timeout_callback ''s3'' both_online = both_online" by blast
  obtain st2 where s2: "step (Connection bob2 7) bob_gone = Inr st2"
    by (simp add: bob_gone_def bob2_def transport_defs connection_defs)
  from disconnect_keeps_offline_session
         [of _ _ _ _ bob_gone "''s3''" ?b' _ st2 bob2 _ _ 7] g bu s2
  have e1: "map_of (users st2) ''s3'' = None"
           "map_of (users st2) (sock_id bob2) = Some (new_session bob2 7)"
    by metis+
  from r h l d a2 g bu e b1 c1 o c2 d1 d2 s2 e1 show ?thesis by blast
qed

text \<open>
  \<open>bob\<close> disconnects, which leaves his offline session in the registry, and the sweep
  runs: his session no longer resolves, although his timer is still pending and nobody has
  connected since.
\<close>

theorem disconnect_sweep_counterexample:
  "run [Connection alice1 0, Connection bob1 1, Disconnect bob1 2] initial = Inr bob_gone \<and>
   findUserByUserId (users bob_gone) (Some ''bob'') =
     Some ((new_session bob1 1)\<lparr>status := Offline, lastActive := 2\<rparr>) \<and>
   step Sweep bob_gone = Inr (sweep bob_gone) \<and>
   findUserByUserId (users (sweep bob_gone)) (Some ''bob'') = None \<and>
   timers (sweep bob_gone) = [(''s3'', 300002)]"
proof -
  have "findUserByUserId (users bob_gone) (Some ''bob'') =
          Some ((new_session bob1 1)\<lparr>status := Offline, lastActive := 2\<rparr>)"
    "findUserByUserId (users (sweep bob_gone)) (Some ''bob'') = None"
    "timers (sweep bob_gone) = [(''s3'', 300002)]"
    by (simp_all add: bob_gone_def sweep_def findUserByUserId_def new_session_def bob1_def
        display_name_def)
  with run_bob_gone show ?thesis by (simp del: run.simps)
qed

section \<open>Chat rooms are never empty\<close>

lemma set_add_nonempty: "set_add x xs \<noteq> []"
  by (auto simp: set_add_def)

lemma rooms_nonempty_update:
  "rooms_nonempty rs \<Longrightarrow> ms \<noteq> [] \<Longrightarrow> rooms_nonempty (AList.update r ms rs)"
  using set_update_subset [of r ms rs] by (auto simp: rooms_nonempty_def)

lemma rooms_nonempty_delete: "rooms_nonempty rs \<Longrightarrow> rooms_nonempty (AList.delete r rs)"
  by (auto simp: rooms_nonempty_def AList.delete_eq)

lemma rooms_nonempty_remove_from_rooms:
  "rooms_nonempty rs \<Longrightarrow> rooms_nonempty (remove_from_rooms u ks rs)"
proof (induction ks arbitrary: rs)
  case Nil
  then show ?case by simp
next
  case (Cons k ks)
  show ?case
  proof (cases "map_of rs k")
    case None
    with Cons show ?thesis by simp
  next
    case (Some ms)
    show ?thesis
    proof (cases "u \<in> set ms")
      case False
      with Some Cons show ?thesis by simp
    next
      case True
      show ?thesis
      proof (cases "removeAll u ms = []")
        case True
        with Some \<open>u \<in> set ms\<close> Cons.IH [OF rooms_nonempty_delete [OF Cons.prems]]
        show ?thesis by simp
      next
        case False
        with Some \<open>u \<in> set ms\<close> Cons.IH [OF rooms_nonempty_update [OF Cons.prems False]]
        show ?thesis by simp
      qed
    qed
  qed
qed

lemma step_rooms_nonempty:
  assumes "rooms_nonempty (rooms st)" "step e st = Inr st'"
  shows "rooms_nonempty (rooms st')"
proof (cases e)
  case (Connection sk now)
  with assms show ?thesis
    by (auto simp: connection_defs transport_defs split: sum.splits)
next
  case (UpdateLanguagePreference sk data)
  with assms show ?thesis
    by (auto simp: updateLanguagePreference_def emit_def split: option.splits if_splits)
next
  case (JoinRoom sk r)
  with assms show ?thesis
    by (auto simp: joinRoom_def Let_def socket_join_def emit_def rooms_nonempty_update
        set_add_nonempty split: property.splits)
next
  case (LeaveRoom sk r)
  with assms show ?thesis
    by (auto simp: leaveRoom_def Let_def transport_defs rooms_nonempty_update
        rooms_nonempty_delete split: property.splits if_splits)
next
  case (SendMessage sk now d)
  with assms show ?thesis
    by (auto simp: sendMessage_def Let_def emit_def split: option.splits)
next
  case (Typing sk receiverId roomId isTyping)
  with assms show ?thesis
    by (auto simp: typing_def Let_def emit_def split: option.splits)
next
  case (CallUser sk to offer callType roomId)
  with assms show ?thesis
    by (auto simp: callUser_def emit_def split: option.splits if_splits)
next
  case (AnswerCall sk to answer roomId)
  with assms show ?thesis
    by (auto simp: answerCall_def emit_def split: option.splits)
next
  case (IceCandidate sk to candidate roomId)
  with assms show ?thesis
    by (auto simp: iceCandidate_def emit_def split: option.splits)
next
  case (IncomingCallAck sk frm callSessionId)
  with assms show ?thesis
    by (auto simp: incomingCallAck_def emit_def split: option.splits)
next
  case (EndCall sk to roomId)
  with assms show ?thesis
    by (auto simp: endCall_def emit_def split: option.splits)
next
  case (JoinGroupCall sk callRoomId joinUserId)
  with assms show ?thesis
    by (auto simp: joinGroupCall_def Let_def transport_defs)
next
  case (LeaveGroupCall sk callRoomId)
  with assms show ?thesis
    by (auto simp: leaveGroupCall_def transport_defs)
next
  case (GroupCallOffer sk t offer callRoomId)
  with assms show ?thesis by (auto simp: groupCallOffer_def emit_def)
next
  case (GroupCallAnswer sk t answer callRoomId)
  with assms show ?thesis by (auto simp: groupCallAnswer_def emit_def)
next
  case (GroupCallIceCandidate sk t candidate callRoomId)
  with assms show ?thesis by (auto simp: groupCallIceCandidate_def emit_def)
next
  case (GroupCallSpeaking sk callRoomId isSpeaking)
  with assms show ?thesis by (auto simp: groupCallSpeaking_def emit_def)
next
  case (Disconnect sk now)
  with assms show ?thesis
    by (auto simp: disconnect_def Let_def emit_def transport_close_def
        rooms_nonempty_remove_from_rooms split: option.splits)
next
  case (Timeout x)
  with assms show ?thesis
    by (auto simp: fire_timer_def timeout_callback_def split: option.splits if_splits)
next
  case Sweep
  with assms show ?thesis by (auto simp: sweep_def)
qed

lemma run_rooms_nonempty:
  "rooms_nonempty (rooms st) \<Longrightarrow> run es st = Inr st' \<Longrightarrow> rooms_nonempty (rooms st')"
proof (induction es arbitrary: st)
  case Nil
  then show ?case by simp
next
  case (Cons e es)
  then show ?case by (auto split: sum.splits dest: step_rooms_nonempty)
qed

text \<open>
  C7: after every run of events from the initial state (connections, \<^verbatim>\<open>joinRoom\<close>,
  \<^verbatim>\<open>leaveRoom\<close>, disconnects and all the others, in any order) no room in the shared
  \<^verbatim>\<open>rooms\<close> state has an empty member set. Every prefix of a run is a run, so this holds
  after each event that completes. \<^verbatim>\<open>joinRoom\<close> stores a set only with the joiner added;
  \<^verbatim>\<open>leaveRoom\<close> and the disconnect loop delete the key when the set becomes empty.
\<close>

theorem rooms_never_empty:
  assumes "run es initial = Inr st"
  shows "rooms_nonempty (rooms st)"
  using assms by (rule run_rooms_nonempty [rotated]) (simp add: initial_def rooms_nonempty_def)

text \<open>
  \<open>bob\<close> is alone in \<open>den\<close> and with \<open>alice\<close> in \<open>lobby\<close> when he disconnects:
  \<open>den\<close> is deleted, \<open>lobby\<close> keeps \<open>alice\<close>.
\<close>

theorem rooms_never_empty_witness:
  "\<exists>st. run [Connection alice1 0, Connection bob1 1, JoinRoom alice1 ''lobby'',
             JoinRoom bob1 ''lobby'', JoinRoom bob1 ''den'', LeaveRoom alice1 ''den'',
             Disconnect bob1 9] initial = Inr st \<and>
        rooms st = [(''lobby'', [''alice''])] \<and> rooms_nonempty (rooms st)"
proof -
  obtain st where r: "run [Connection alice1 0, Connection bob1 1, JoinRoom alice1 ''lobby'',
             JoinRoom bob1 ''lobby'', JoinRoom bob1 ''den'', LeaveRoom alice1 ''den'',
             Disconnect bob1 9] initial = Inr st" and rs: "rooms st = [(''lobby'', [''alice''])]"
    by (simp add: example_defs transport_defs connection_defs joinRoom_def leaveRoom_def
        disconnect_def getprop_def object_prototype_keys_def Let_def)
  from rooms_never_empty [OF r] r rs show ?thesis by blast
qed

section \<open>Language preference\<close>

text \<open>An event that carries no payload makes the destructuring throw.\<close>

lemma updateLanguagePreference_no_payload:
  "updateLanguagePreference sk None st = Inl TypeError"
  by (simp add: updateLanguagePreference_def)

text \<open>
  C8, as the listener has it, for an event that carries a payload: the guard
  \<^verbatim>\<open>if (language && users[socket.id])\<close> encloses the update and the acknowledgement
  alike. With \<^verbatim>\<open>language\<close> missing from the payload (or empty) the listener returns with
  the state unchanged and nothing emitted, and the same holds when the sender has no
  registry entry. With \<^verbatim>\<open>language\<close> present and the sender registered, the entry's
  \<^verbatim>\<open>preferredLanguage\<close> becomes \<^verbatim>\<open>language\<close>, every other entry is untouched, and
  exactly one \<^verbatim>\<open>languagePreferenceUpdated\<close> goes to the sender.
\<close>

theorem updateLanguagePreference_cases:
  "(\<not> truthy (d_language d) \<longrightarrow>
      updateLanguagePreference sk (Some d) st = Inr st \<and>
      step (UpdateLanguagePreference sk (Some d)) st = Inr st) \<and>
   (truthy (d_language d) \<and> map_of (users st) (sock_id sk) = None \<longrightarrow>
      updateLanguagePreference sk (Some d) st = Inr st) \<and>
   (truthy (d_language d) \<and> map_of (users st) (sock_id sk) = Some s \<longrightarrow>
      (\<exists>st'. updateLanguagePreference sk (Some d) st = Inr st' \<and>
         map_of (users st') (sock_id sk) = Some (s\<lparr>preferredLanguage := the_str (d_language d)\<rparr>) \<and>
         (\<forall>k. k \<noteq> sock_id sk \<longrightarrow> map_of (users st') k = map_of (users st) k) \<and>
         new_emissions st st' =
           [(ToSocket (sock_id sk), ''languagePreferenceUpdated'',
             Obj [(''language'', opt (d_language d)), (''success'', Bool True)])] \<and>
         rooms st' = rooms st))"
  by (simp add: updateLanguagePreference_def emit_def new_emissions_def update_conv')

text \<open>
  The three cases on the state \<open>two_tabs\<close>: a payload without language from the registered
  tab, a language from the evicted tab, a language from the registered tab.
\<close>

theorem updateLanguagePreference_cases_witness:
  "\<not> truthy (d_language \<lparr>d_language = None\<rparr>) \<and>
   updateLanguagePreference alice2 (Some \<lparr>d_language = None\<rparr>) two_tabs = Inr two_tabs \<and>
   truthy (d_language \<lparr>d_language = Some ''hi''\<rparr>) \<and>
   map_of (users two_tabs) (sock_id alice1) = None \<and>
   updateLanguagePreference alice1 (Some \<lparr>d_language = Some ''hi''\<rparr>) two_tabs = Inr two_tabs \<and>
   map_of (users two_tabs) (sock_id alice2) = Some (new_session alice2 5) \<and>
   (\<exists>st'. updateLanguagePreference alice2 (Some \<lparr>d_language = Some ''hi''\<rparr>) two_tabs = Inr st' \<and>
      map_of (users st') (sock_id alice2) = Some ((new_session alice2 5)\<lparr>preferredLanguage := ''hi''\<rparr>) \<and>
      new_emissions two_tabs st' =
        [(ToSocket (sock_id alice2), ''languagePreferenceUpdated'',
          Obj [(''language'', Str ''hi''), (''success'', Bool True)])])"
proof -
  let ?none = "\<lparr>d_language = None\<rparr>"
  let ?hi = "\<lparr>d_language = Some ''hi''\<rparr>"
  have a: "\<not> truthy (d_language ?none)" by simp
  have t: "truthy (d_language ?hi)" by simp
  have b: "map_of (users two_tabs) (sock_id alice1) = None"
    by (simp add: two_tabs_def alice1_def)
  have c: "map_of (users two_tabs) (sock_id alice2) = Some (new_session alice2 5)"
    by (simp add: two_tabs_def alice2_def new_session_def display_name_def)
  from updateLanguagePreference_cases [of ?none alice2 two_tabs] a
  have n: "updateLanguagePreference alice2 (Some ?none) two_tabs = Inr two_tabs" by blast
  from updateLanguagePreference_cases [of ?hi alice1 two_tabs] t b
  have u: "updateLanguagePreference alice1 (Some ?hi) two_tabs = Inr two_tabs" by blast
  from updateLanguagePreference_cases [of ?hi alice2 two_tabs "new_session alice2 5"] t c
  obtain st' where st': "updateLanguagePreference alice2 (Some ?hi) two_tabs = Inr st'"
    "map_of (users st') (sock_id alice2) =
       Some ((new_session alice2 5)\<lparr>preferredLanguage := the_str (d_language ?hi)\<rparr>)"
    "new_emissions two_tabs st' =
        [(ToSocket (sock_id alice2), ''languagePreferenceUpdated'',
          Obj [(''language'', opt (d_language ?hi)), (''success'', Bool True)])]"
    by blast
  from st' have r: "\<exists>st'. updateLanguagePreference alice2 (Some ?hi) two_tabs = Inr st' \<and>
      map_of (users st') (sock_id alice2) = Some ((new_session alice2 5)\<lparr>preferredLanguage := ''hi''\<rparr>) \<and>
      new_emissions two_tabs st' =
        [(ToSocket (sock_id alice2), ''languagePreferenceUpdated'',
          Obj [(''language'', Str ''hi''), (''success'', Bool True)])]"
    by simp
  from a t b c n u r show ?thesis by blast
qed

text \<open>
  A registered sender whose payload has no \<^verbatim>\<open>language\<close> gets no acknowledgement: the
  run completes and has emitted no \<^verbatim>\<open>languagePreferenceUpdated\<close> at all.
\<close>

theorem updateLanguagePreference_no_ack_counterexample:
  "map_sum id (emitted ''languagePreferenceUpdated'')
     (run [Connection alice1 0, UpdateLanguagePreference alice1 (Some \<lparr>d_language = None\<rparr>)]
        initial) = Inr []"
  by (simp add: example_defs transport_defs connection_defs updateLanguagePreference_def
      emitted_def)

section \<open>The chat message envelope\<close>

text \<open>
  C9, as the listener has it: every \<^verbatim>\<open>receiveMessage\<close> that \<^verbatim>\<open>sendMessage\<close> emits
  carries the envelope built in the listener. Its \<^verbatim>\<open>senderId\<close> is the user id of the
  verified credential, its \<^verbatim>\<open>timestamp\<close> is the time of the relay, and sender fields
  in the payload have no influence on it. Its \<^verbatim>\<open>senderName\<close> is the credential's
  top-level \<^verbatim>\<open>username\<close> as it stands, \<^verbatim>\<open>undefined\<close> when the credential has none:
  the fallbacks of the display name (\<^verbatim>\<open>user.username\<close>, then \<^verbatim>\<open>'Unknown'\<close>) are
  not applied to the envelope. The two names agree exactly when the top-level field is
  non-empty.
\<close>

theorem message_sender_identity:
  "(\<forall>e \<in> set (new_emissions st (sendMessage sk now d st)).
      fst (snd e) = ''receiveMessage'' \<longrightarrow> snd (snd e) = message sk now d) \<and>
   field (message sk now d) ''senderId'' = Str (user_userId sk) \<and>
   field (message sk now d) ''senderName'' = opt (user_username sk) \<and>
   field (message sk now d) ''timestamp'' = Date now \<and>
   message sk now (d\<lparr>d_senderId := x, d_senderName := y\<rparr>) = message sk now d \<and>
   (truthy (user_username sk) \<longrightarrow>
      field (message sk now d) ''senderName'' = Str (display_name sk)) \<and>
   (\<not> truthy (user_username sk) \<longrightarrow>
      field (message sk now d) ''senderName'' \<noteq> Str (display_name sk))"
proof -
  have same: "truthy (user_username sk) \<Longrightarrow> opt (user_username sk) = Str (display_name sk)"
    by (cases "user_username sk") (simp_all add: display_name_def)
  have "js_or v ''Unknown'' \<noteq> []" for v
    by (cases v) simp_all
  then have "\<not> truthy (user_username sk) \<Longrightarrow> display_name sk \<noteq> []"
    by (cases "user_username sk") (simp_all add: display_name_def)
  then have other: "\<not> truthy (user_username sk) \<Longrightarrow>
      opt (user_username sk) \<noteq> Str (display_name sk)"
    by (cases "user_username sk") auto
  from same other show ?thesis
    by (auto simp add: sendMessage_def new_emissions_def emit_def message_def Let_def
        split: option.splits)
qed

text \<open>\<open>alice\<close>, whose credential has a username, writes to \<open>bob\<close>.\<close>

theorem message_sender_identity_witness:
  "(ToRoom ''s3'', ''receiveMessage'', message alice1 7 (hi_to ''bob''))
     \<in> set (new_emissions both_online (sendMessage alice1 7 (hi_to ''bob'') both_online)) \<and>
   field (message alice1 7 (hi_to ''bob'')) ''senderId'' = Str ''alice'' \<and>
   truthy (user_username alice1) \<and>
   field (message alice1 7 (hi_to ''bob'')) ''senderName'' = Str ''Alice'' \<and>
   field (message alice1 7 (hi_to ''bob'')) ''timestamp'' = Date 7"
proof -
  have m: "new_emissions both_online (sendMessage alice1 7 (hi_to ''bob'') both_online) =
        [(ToRoom ''s3'', ''receiveMessage'', message alice1 7 (hi_to ''bob'')),
         (ToSocket ''s1'', ''messageSent'',
          Obj [(''success'', Bool True), (''message'', message alice1 7 (hi_to ''bob''))])]"
    by (simp add: both_online_def sendMessage_def findUserByUserId_def emit_def
        new_emissions_def hi_to_def alice1_def)
  have t: "truthy (user_username alice1)" by (simp add: alice1_def)
  from message_sender_identity [of both_online alice1 7 "hi_to ''bob''"] m t
  show ?thesis by (simp add: alice1_def display_name_def)
qed

text \<open>
  \<open>bob\<close>'s credential has no username. His display name is \<open>Unknown\<close>, and so the
  registry shows him, while the envelope of his message to \<open>alice\<close> has
  \<^verbatim>\<open>senderName\<close> undefined.
\<close>

theorem message_sender_counterexample:
  "run [Connection alice1 0, Connection bob1 1] initial = Inr both_online \<and>
   map (username \<circ> snd) (users both_online) = [''Alice'', ''Unknown''] \<and>
   display_name bob1 = ''Unknown'' \<and>
   new_emissions both_online (sendMessage bob1 7 (hi_to ''alice'') both_online) =
     [(ToRoom ''s1'', ''receiveMessage'',
       Obj [(''senderId'', Str ''bob''), (''senderName'', Undefined), (''content'', Str ''hi''),
            (''timestamp'', Date 7), (''roomId'', Undefined)]),
      (ToSocket ''s3'', ''messageSent'',
       Obj [(''success'', Bool True),
            (''message'',
             Obj [(''senderId'', Str ''bob''), (''senderName'', Undefined),
                  (''content'', Str ''hi''), (''timestamp'', Date 7),
                  (''roomId'', Undefined)])])]"
proof -
  have "map (username \<circ> snd) (users both_online) = [''Alice'', ''Unknown'']"
    "display_name bob1 = ''Unknown''"
    "new_emissions both_online (sendMessage bob1 7 (hi_to ''alice'') both_online) =
     [(ToRoom ''s1'', ''receiveMessage'',
       Obj [(''senderId'', Str ''bob''), (''senderName'', Undefined), (''content'', Str ''hi''),
            (''timestamp'', Date 7), (''roomId'', Undefined)]),
      (ToSocket ''s3'', ''messageSent'',
       Obj [(''success'', Bool True),
            (''message'',
             Obj [(''senderId'', Str ''bob''), (''senderName'', Undefined),
                  (''content'', Str ''hi''), (''timestamp'', Date 7),
                  (''roomId'', Undefined)])])]"
    by (simp_all add: both_online_def sendMessage_def message_def findUserByUserId_def emit_def
        new_emissions_def hi_to_def bob1_def display_name_def)
  with run_both_online show ?thesis by blast
qed

section \<open>Disconnect of an evicted connection\<close>

text \<open>
  C10: when the registry has no entry under the disconnecting socket's id, the
  \<^verbatim>\<open>disconnect\<close> listener changes nothing. The whole event then only closes the
  channel in the transport: the registry, the rooms, the pending timers and the emitted
  events are the same before and after, so no \<^verbatim>\<open>userStatusChange\<close> is broadcast, no
  room loses a member and no deletion is scheduled.
\<close>

theorem disconnect_after_eviction_noop:
  assumes "map_of (users st) (sock_id sk) = None"
  shows "disconnect sk now st = st \<and>
         step (Disconnect sk now) st = Inr (transport_close (sock_id sk) st) \<and>
         users (transport_close (sock_id sk) st) = users st \<and>
         rooms (transport_close (sock_id sk) st) = rooms st \<and>
         timers (transport_close (sock_id sk) st) = timers st \<and>
         outbox (transport_close (sock_id sk) st) = outbox st"
  using assms by (simp add: disconnect_def transport_close_def)

text \<open>
  In \<open>two_tabs\<close> the first tab's entry is gone. Closing that tab leaves the second tab's
  session online, \<open>alice\<close> in \<open>lobby\<close>, and no timer pending.
\<close>

theorem disconnect_after_eviction_noop_witness:
  "map_of (users two_tabs) (sock_id alice1) = None \<and>
   disconnect alice1 9 two_tabs = two_tabs \<and>
   step (Disconnect alice1 9) two_tabs = Inr (transport_close (sock_id alice1) two_tabs) \<and>
   map (status \<circ> snd) (users (transport_close (sock_id alice1) two_tabs)) = [Online] \<and>
   rooms (transport_close (sock_id alice1) two_tabs) = [(''lobby'', [''alice''])] \<and>
   timers (transport_close (sock_id alice1) two_tabs) = [] \<and>
   emitted ''userStatusChange'' (transport_close (sock_id alice1) two_tabs) =
     emitted ''userStatusChange'' two_tabs"
proof -
  have h: "map_of (users two_tabs) (sock_id alice1) = None"
    by (simp add: two_tabs_def alice1_def)
  from disconnect_after_eviction_noop [OF h, of 9] show ?thesis
    by (simp add: h emitted_def) (simp add: two_tabs_def)
qed

end
